theory Spec2Isabelle
  imports Main "HOL-Library.Word" "HOL-Library.Monad_Syntax"
begin

unbundle bit_operations_syntax

section \<open>Machine state\<close>

text \<open>
  The CHIP-8 virtual machine of package \<open>vm\<close>. Go's \<open>uint8\<close> and \<open>uint16\<close> are
  8-bit and 16-bit words: \<open>+\<close> and \<open>-\<close> wrap around, comparisons are unsigned.
  The slices of the \<open>VM\<close> struct are lists; \<open>New\<close> allocates them with the lengths
  \<open>MemorySize\<close>, \<open>RegisterCount\<close>, \<open>StackSize\<close>, \<open>ScreenWidth*ScreenHeight\<close>
  and \<open>KeyCount\<close>.
\<close>

type_synonym u8 = "8 word"
type_synonym u16 = "16 word"

definition MemorySize :: nat where "MemorySize = 4096"
definition StackSize :: nat where "StackSize = 16"
definition RegisterCount :: nat where "RegisterCount = 16"
definition ScreenWidth :: u16 where "ScreenWidth = 64"
definition ScreenHeight :: u16 where "ScreenHeight = 32"
definition KeyCount :: nat where "KeyCount = 16"
definition ProgramStart :: u16 where "ProgramStart = 0x200"
definition InstructionSize :: u16 where "InstructionSize = 2"

record VM =
  memory :: "u8 list"
  registers :: "u8 list"
  stack :: "u16 list"
  sp :: u16
  pc :: u16
  index :: u16
  delayTimer :: u8
  soundTimer :: u8
  gfx :: "u8 list"
  keypad :: "u8 list"
  drawFlag :: bool
  program :: "u8 list"

text \<open>\<open>New\<close>: every slice allocated at its size and zeroed, every scalar zero.\<close>

definition New :: "u8 list \<Rightarrow> VM" where
  "New prog =
     \<lparr>memory = replicate MemorySize 0, registers = replicate RegisterCount 0,
      stack = replicate StackSize 0, sp = 0, pc = 0, index = 0,
      delayTimer = 0, soundTimer = 0,
      gfx = replicate (unat (ScreenWidth * ScreenHeight)) 0,
      keypad = replicate KeyCount 0, drawFlag = False, program = prog\<rparr>"

text \<open>
  The error values an instruction can return: \<open>errInfiniteLoop\<close>, the
  \<open>fmt.Errorf("unknown op code 0x%04X", opcode)\<close> of \<open>unknownInstruction\<close> (it
  carries the opcode), and whatever the host's \<open>HAL\<close> returns.
\<close>

datatype error = errInfiniteLoop | errUnknownOpcode u16 | errHAL

text \<open>
  A Go function returning \<open>error\<close> on a \<open>*VM\<close> receiver is modelled as a function
  to \<open>(error option \<times> VM) option\<close>: the inner option is the returned \<open>error\<close>
  (\<open>None\<close> is \<open>nil\<close>) beside the machine as the call left it; the outer \<open>None\<close> is
  a run-time panic (index out of range), which nothing in the program recovers.
\<close>

type_synonym result = "(error option \<times> VM) option"

text \<open>
  \<open>instruction.Execute\<close> of each instruction variable \<open>fooInstruction\<close> is the
  function \<open>foo_Execute\<close> below; \<open>instruction.Name\<close> only feeds the debug log.
\<close>

text \<open>Indexing a slice: Go panics when the index is not below the length.\<close>

definition slice_get :: "'a list \<Rightarrow> nat \<Rightarrow> 'a option" where
  "slice_get xs i = (if i < length xs then Some (xs ! i) else None)"

definition slice_set :: "'a list \<Rightarrow> nat \<Rightarrow> 'a \<Rightarrow> 'a list option" where
  "slice_set xs i v = (if i < length xs then Some (xs[i := v]) else None)"

section \<open>Instructions\<close>

datatype instruction =
    clsInstruction | rtsInstruction | jmpInstruction | jsrInstruction
  | skeq1Instruction | skne1Instruction | skeq2Instruction
  | mov1Instruction | add1Instruction | mov2Instruction
  | orInstruction | andInstruction | xorInstruction
  | add2Instruction | subInstruction | shrInstruction | rsbInstruction | shlInstruction
  | skne2Instruction | mviInstruction | jmiInstruction | randInstruction
  | spriteInstruction | skprInstruction | skupInstruction
  | gdelayInstruction | keyInstruction | sdelayInstruction | ssoundInstruction
  | adiInstruction | fontInstruction | bcdInstruction | strInstruction | ldrInstruction
  | unknownInstruction

definition decode :: "u16 \<Rightarrow> instruction" where
  "decode opcode =
    (let top = opcode AND 0xF000 in
     if top = 0x0000 then
       (let lo = opcode AND 0x00FF in
        if lo = 0x00E0 then clsInstruction
        else if lo = 0x00EE then rtsInstruction
        else unknownInstruction)
     else if top = 0x1000 then jmpInstruction
     else if top = 0x2000 then jsrInstruction
     else if top = 0x3000 then skeq1Instruction
     else if top = 0x4000 then skne1Instruction
     else if top = 0x5000 then skeq2Instruction
     else if top = 0x6000 then mov1Instruction
     else if top = 0x7000 then add1Instruction
     else if top = 0x8000 then
       (let n = opcode AND 0x000F in
        if n = 0x0000 then mov2Instruction
        else if n = 0x0001 then orInstruction
        else if n = 0x0002 then andInstruction
        else if n = 0x0003 then xorInstruction
        else if n = 0x0004 then add2Instruction
        else if n = 0x0005 then subInstruction
        else if n = 0x0006 then shrInstruction
        else if n = 0x0007 then rsbInstruction
        else if n = 0x000E then shlInstruction
        else unknownInstruction)
     else if top = 0x9000 then skne2Instruction
     else if top = 0xA000 then mviInstruction
     else if top = 0xB000 then jmiInstruction
     else if top = 0xC000 then randInstruction
     else if top = 0xD000 then spriteInstruction
     else if top = 0xE000 then
       (let lo = opcode AND 0x00FF in
        if lo = 0x009E then skprInstruction
        else if lo = 0x00A1 then skupInstruction
        else unknownInstruction)
     else if top = 0xF000 then
       (let lo = opcode AND 0x00FF in
        if lo = 0x0007 then gdelayInstruction
        else if lo = 0x000A then keyInstruction
        else if lo = 0x0015 then sdelayInstruction
        else if lo = 0x0018 then ssoundInstruction
        else if lo = 0x001E then adiInstruction
        else if lo = 0x0029 then fontInstruction
        else if lo = 0x0033 then bcdInstruction
        else if lo = 0x0055 then strInstruction
        else if lo = 0x0065 then ldrInstruction
        else unknownInstruction)
     else unknownInstruction)"

subsection \<open>Control flow\<close>

definition cls_Execute :: "VM \<Rightarrow> u16 \<Rightarrow> result" where
  "cls_Execute vm opcode =
     Some (None, vm\<lparr>gfx := map (\<lambda>_. 0) (gfx vm), drawFlag := True,
                      pc := pc vm + InstructionSize\<rparr>)"

definition rts_Execute :: "VM \<Rightarrow> u16 \<Rightarrow> result" where
  "rts_Execute vm opcode = do {
     let sp' = sp vm - 1;
     ret \<leftarrow> slice_get (stack vm) (unat sp');
     Some (None, vm\<lparr>sp := sp', pc := ret + InstructionSize\<rparr>)
   }"

definition jmp_Execute :: "VM \<Rightarrow> u16 \<Rightarrow> result" where
  "jmp_Execute vm opcode =
     (let pc' = opcode AND 0x0FFF in
      if pc' = pc vm then Some (Some errInfiniteLoop, vm)
      else Some (None, vm\<lparr>pc := pc'\<rparr>))"

definition jsr_Execute :: "VM \<Rightarrow> u16 \<Rightarrow> result" where
  "jsr_Execute vm opcode = do {
     stack' \<leftarrow> slice_set (stack vm) (unat (sp vm)) (pc vm);
     Some (None, vm\<lparr>stack := stack', sp := sp vm + 1, pc := opcode AND 0x0FFF\<rparr>)
   }"

definition skeq1_Execute :: "VM \<Rightarrow> u16 \<Rightarrow> result" where
  "skeq1_Execute vm opcode = do {
     let vX = drop_bit 8 (opcode AND 0x0F00);
     x \<leftarrow> slice_get (registers vm) (unat vX);
     let y = (ucast (opcode AND 0x00FF) :: u8);
     Some (None, if x = y then vm\<lparr>pc := pc vm + 2 * InstructionSize\<rparr>
                 else vm\<lparr>pc := pc vm + InstructionSize\<rparr>)
   }"

definition skne1_Execute :: "VM \<Rightarrow> u16 \<Rightarrow> result" where
  "skne1_Execute vm opcode = do {
     let vX = drop_bit 8 (opcode AND 0x0F00);
     x \<leftarrow> slice_get (registers vm) (unat vX);
     let y = (ucast (opcode AND 0x00FF) :: u8);
     Some (None, if x \<noteq> y then vm\<lparr>pc := pc vm + 2 * InstructionSize\<rparr>
                 else vm\<lparr>pc := pc vm + InstructionSize\<rparr>)
   }"

definition skeq2_Execute :: "VM \<Rightarrow> u16 \<Rightarrow> result" where
  "skeq2_Execute vm opcode = do {
     let vX = drop_bit 8 (opcode AND 0x0F00);
     let vY = drop_bit 4 (opcode AND 0x00F0);
     x \<leftarrow> slice_get (registers vm) (unat vX);
     y \<leftarrow> slice_get (registers vm) (unat vY);
     Some (None, if x = y then vm\<lparr>pc := pc vm + 2 * InstructionSize\<rparr>
                 else vm\<lparr>pc := pc vm + InstructionSize\<rparr>)
   }"

definition skne2_Execute :: "VM \<Rightarrow> u16 \<Rightarrow> result" where
  "skne2_Execute vm opcode = do {
     let vX = drop_bit 8 (opcode AND 0x0F00);
     let vY = drop_bit 4 (opcode AND 0x00F0);
     x \<leftarrow> slice_get (registers vm) (unat vX);
     y \<leftarrow> slice_get (registers vm) (unat vY);
     Some (None, if x \<noteq> y then vm\<lparr>pc := pc vm + 2 * InstructionSize\<rparr>
                 else vm\<lparr>pc := pc vm + InstructionSize\<rparr>)
   }"

definition jmi_Execute :: "VM \<Rightarrow> u16 \<Rightarrow> result" where
  "jmi_Execute vm opcode = do {
     v0 \<leftarrow> slice_get (registers vm) 0;
     Some (None, vm\<lparr>pc := (opcode AND 0x0FFF) + ucast v0\<rparr>)
   }"

subsection \<open>Registers and arithmetic\<close>

definition mov1_Execute :: "VM \<Rightarrow> u16 \<Rightarrow> result" where
  "mov1_Execute vm opcode = do {
     let vX = drop_bit 8 (opcode AND 0x0F00);
     let y = (ucast (opcode AND 0x00FF) :: u8);
     rs \<leftarrow> slice_set (registers vm) (unat vX) y;
     Some (None, vm\<lparr>registers := rs, pc := pc vm + InstructionSize\<rparr>)
   }"

definition add1_Execute :: "VM \<Rightarrow> u16 \<Rightarrow> result" where
  "add1_Execute vm opcode = do {
     let vX = drop_bit 8 (opcode AND 0x0F00);
     let y = (ucast (opcode AND 0x00FF) :: u8);
     x \<leftarrow> slice_get (registers vm) (unat vX);
     rs \<leftarrow> slice_set (registers vm) (unat vX) (x + y);
     Some (None, vm\<lparr>registers := rs, pc := pc vm + InstructionSize\<rparr>)
   }"

definition mov2_Execute :: "VM \<Rightarrow> u16 \<Rightarrow> result" where
  "mov2_Execute vm opcode = do {
     let vX = drop_bit 8 (opcode AND 0x0F00);
     let vY = drop_bit 4 (opcode AND 0x00F0);
     y \<leftarrow> slice_get (registers vm) (unat vY);
     rs \<leftarrow> slice_set (registers vm) (unat vX) y;
     Some (None, vm\<lparr>registers := rs, pc := pc vm + InstructionSize\<rparr>)
   }"

definition or_Execute :: "VM \<Rightarrow> u16 \<Rightarrow> result" where
  "or_Execute vm opcode = do {
     let vX = drop_bit 8 (opcode AND 0x0F00);
     let vY = drop_bit 4 (opcode AND 0x00F0);
     x \<leftarrow> slice_get (registers vm) (unat vX);
     y \<leftarrow> slice_get (registers vm) (unat vY);
     rs \<leftarrow> slice_set (registers vm) (unat vX) (x OR y);
     Some (None, vm\<lparr>registers := rs, pc := pc vm + InstructionSize\<rparr>)
   }"

definition and_Execute :: "VM \<Rightarrow> u16 \<Rightarrow> result" where
  "and_Execute vm opcode = do {
     let vX = drop_bit 8 (opcode AND 0x0F00);
     let vY = drop_bit 4 (opcode AND 0x00F0);
     x \<leftarrow> slice_get (registers vm) (unat vX);
     y \<leftarrow> slice_get (registers vm) (unat vY);
     rs \<leftarrow> slice_set (registers vm) (unat vX) (x AND y);
     Some (None, vm\<lparr>registers := rs, pc := pc vm + InstructionSize\<rparr>)
   }"

definition xor_Execute :: "VM \<Rightarrow> u16 \<Rightarrow> result" where
  "xor_Execute vm opcode = do {
     let vX = drop_bit 8 (opcode AND 0x0F00);
     let vY = drop_bit 4 (opcode AND 0x00F0);
     x \<leftarrow> slice_get (registers vm) (unat vX);
     y \<leftarrow> slice_get (registers vm) (unat vY);
     rs \<leftarrow> slice_set (registers vm) (unat vX) (x XOR y);
     Some (None, vm\<lparr>registers := rs, pc := pc vm + InstructionSize\<rparr>)
   }"

text \<open>
  \<open>add2Instruction\<close> stores the sum, reads the stored sum back and compares it with
  \<open>0xFF\<close> minus itself; the flag goes to register \<open>0x0F\<close> after the sum.
\<close>

definition add2_Execute :: "VM \<Rightarrow> u16 \<Rightarrow> result" where
  "add2_Execute vm opcode = do {
     let vX = drop_bit 8 (opcode AND 0x0F00);
     let vY = drop_bit 4 (opcode AND 0x00F0);
     x \<leftarrow> slice_get (registers vm) (unat vX);
     y \<leftarrow> slice_get (registers vm) (unat vY);
     rs \<leftarrow> slice_set (registers vm) (unat vX) (x + y);
     r \<leftarrow> slice_get rs (unat vX);
     rs' \<leftarrow> slice_set rs 0x0F (if r > 0xFF - r then 1 else 0);
     Some (None, vm\<lparr>registers := rs', pc := pc vm + InstructionSize\<rparr>)
   }"

text \<open>\<open>sub\<close>, \<open>shr\<close>, \<open>rsb\<close> and \<open>shl\<close> write the flag first and the result second.\<close>

definition sub_Execute :: "VM \<Rightarrow> u16 \<Rightarrow> result" where
  "sub_Execute vm opcode = do {
     let vX = drop_bit 8 (opcode AND 0x0F00);
     let vY = drop_bit 4 (opcode AND 0x00F0);
     x \<leftarrow> slice_get (registers vm) (unat vX);
     y \<leftarrow> slice_get (registers vm) (unat vY);
     rs \<leftarrow> slice_set (registers vm) 0x0F (if y > x then 0 else 1);
     rs' \<leftarrow> slice_set rs (unat vX) (x - y);
     Some (None, vm\<lparr>registers := rs', pc := pc vm + InstructionSize\<rparr>)
   }"

definition shr_Execute :: "VM \<Rightarrow> u16 \<Rightarrow> result" where
  "shr_Execute vm opcode = do {
     let vX = drop_bit 8 (opcode AND 0x0F00);
     x \<leftarrow> slice_get (registers vm) (unat vX);
     rs \<leftarrow> slice_set (registers vm) 0x0F (x AND 0x1);
     rs' \<leftarrow> slice_set rs (unat vX) (drop_bit 1 x);
     Some (None, vm\<lparr>registers := rs', pc := pc vm + InstructionSize\<rparr>)
   }"

definition rsb_Execute :: "VM \<Rightarrow> u16 \<Rightarrow> result" where
  "rsb_Execute vm opcode = do {
     let vX = drop_bit 8 (opcode AND 0x0F00);
     let vY = drop_bit 4 (opcode AND 0x00F0);
     x \<leftarrow> slice_get (registers vm) (unat vX);
     y \<leftarrow> slice_get (registers vm) (unat vY);
     rs \<leftarrow> slice_set (registers vm) 0x0F (if x > y then 0 else 1);
     rs' \<leftarrow> slice_set rs (unat vX) (y - x);
     Some (None, vm\<lparr>registers := rs', pc := pc vm + InstructionSize\<rparr>)
   }"

definition shl_Execute :: "VM \<Rightarrow> u16 \<Rightarrow> result" where
  "shl_Execute vm opcode = do {
     let vX = drop_bit 8 (opcode AND 0x0F00);
     x \<leftarrow> slice_get (registers vm) (unat vX);
     rs \<leftarrow> slice_set (registers vm) 0x0F (drop_bit 7 x);
     rs' \<leftarrow> slice_set rs (unat vX) (push_bit 1 x);
     Some (None, vm\<lparr>registers := rs', pc := pc vm + InstructionSize\<rparr>)
   }"

definition mvi_Execute :: "VM \<Rightarrow> u16 \<Rightarrow> result" where
  "mvi_Execute vm opcode =
     Some (None, vm\<lparr>index := opcode AND 0x0FFF, pc := pc vm + InstructionSize\<rparr>)"

text \<open>
  \<open>rand.IntN(256)\<close> is the only input of an instruction that is not in the machine:
  its value \<open>rnd\<close> is a parameter.
\<close>

definition rand_Execute :: "nat \<Rightarrow> VM \<Rightarrow> u16 \<Rightarrow> result" where
  "rand_Execute rnd vm opcode = do {
     let vX = drop_bit 8 (opcode AND 0x0F00);
     let mask = opcode AND 0x00FF;
     let x = (word_of_nat rnd :: u16);
     let x = x mod (0xFF + 1);
     let x = x AND mask;
     rs \<leftarrow> slice_set (registers vm) (unat vX) (ucast x :: u8);
     Some (None, vm\<lparr>registers := rs, pc := pc vm + InstructionSize\<rparr>)
   }"

subsection \<open>Graphics\<close>

definition getScreenAddr :: "u16 \<Rightarrow> u16 \<Rightarrow> u16" where
  "getScreenAddr x y =
     (let x = x mod ScreenWidth; y = y mod ScreenHeight in ScreenWidth * y + x)"

text \<open>
  The inner loop of \<open>spriteInstruction\<close>, over the columns \<open>x = 0, ..., 7\<close> of one
  sprite row: a set bit of \<open>pixel\<close> toggles one cell of the frame buffer, and a
  cell that was not zero sets \<open>hasCollision\<close>. The loop state is the frame buffer
  and \<open>hasCollision\<close>.
\<close>

fun spriteCols :: "u8 \<Rightarrow> u16 \<Rightarrow> u16 \<Rightarrow> u16 \<Rightarrow> nat list \<Rightarrow> u8 list \<times> u8
    \<Rightarrow> (u8 list \<times> u8) option" where
  "spriteCols pixel xLocation yLocation y [] (g, hasCollision) = Some (g, hasCollision)"
| "spriteCols pixel xLocation yLocation y (x # xs) (g, hasCollision) =
     (let mask = drop_bit x (0x80 :: u8) in
      if pixel AND mask \<noteq> 0 then do {
        let screenAddr = getScreenAddr (word_of_nat x + xLocation) (y + yLocation);
        v \<leftarrow> slice_get g (unat screenAddr);
        g' \<leftarrow> slice_set g (unat screenAddr) (v XOR 1);
        spriteCols pixel xLocation yLocation y xs (g', if v \<noteq> 0 then 1 else hasCollision)
      } else spriteCols pixel xLocation yLocation y xs (g, hasCollision))"

text \<open>
  The outer loop, over the rows \<open>y = 0, ..., height - 1\<close>: the row's byte is read at
  \<open>y + vm.index\<close> (16-bit addition). The source logs an address that is out of
  range and then indexes the slice all the same, which panics.
\<close>

fun spriteRows :: "u8 list \<Rightarrow> u16 \<Rightarrow> u16 \<Rightarrow> u16 \<Rightarrow> nat list \<Rightarrow> u8 list \<times> u8
    \<Rightarrow> (u8 list \<times> u8) option" where
  "spriteRows mem idx xLocation yLocation [] st = Some st"
| "spriteRows mem idx xLocation yLocation (y # ys) st = do {
     let pixelAddr = word_of_nat y + idx;
     pixel \<leftarrow> slice_get mem (unat pixelAddr);
     st' \<leftarrow> spriteCols pixel xLocation yLocation (word_of_nat y) [0..<8] st;
     spriteRows mem idx xLocation yLocation ys st'
   }"

definition sprite_Execute :: "VM \<Rightarrow> u16 \<Rightarrow> result" where
  "sprite_Execute vm opcode = do {
     let vX = drop_bit 8 (opcode AND 0x0F00);
     let vY = drop_bit 4 (opcode AND 0x00F0);
     let height = opcode AND 0x000F;
     x \<leftarrow> slice_get (registers vm) (unat vX);
     y \<leftarrow> slice_get (registers vm) (unat vY);
     let xLocation = (ucast x :: u16);
     let yLocation = (ucast y :: u16);
     (g, hasCollision) \<leftarrow>
       spriteRows (memory vm) (index vm) xLocation yLocation [0..<unat height] (gfx vm, 0);
     rs \<leftarrow> slice_set (registers vm) 0x0F hasCollision;
     Some (None, vm\<lparr>gfx := g, registers := rs, drawFlag := True,
                      pc := pc vm + InstructionSize\<rparr>)
   }"

subsection \<open>Keypad and timers\<close>

definition skpr_Execute :: "VM \<Rightarrow> u16 \<Rightarrow> result" where
  "skpr_Execute vm opcode = do {
     let vX = drop_bit 8 (opcode AND 0x0F00);
     x \<leftarrow> slice_get (registers vm) (unat vX);
     k \<leftarrow> slice_get (keypad vm) (unat x);
     Some (None, if k \<noteq> 0 then vm\<lparr>pc := pc vm + 2 * InstructionSize\<rparr>
                 else vm\<lparr>pc := pc vm + InstructionSize\<rparr>)
   }"

definition skup_Execute :: "VM \<Rightarrow> u16 \<Rightarrow> result" where
  "skup_Execute vm opcode = do {
     let vX = drop_bit 8 (opcode AND 0x0F00);
     x \<leftarrow> slice_get (registers vm) (unat vX);
     k \<leftarrow> slice_get (keypad vm) (unat x);
     Some (None, if k = 0 then vm\<lparr>pc := pc vm + 2 * InstructionSize\<rparr>
                 else vm\<lparr>pc := pc vm + InstructionSize\<rparr>)
   }"

definition gdelay_Execute :: "VM \<Rightarrow> u16 \<Rightarrow> result" where
  "gdelay_Execute vm opcode = do {
     let vX = drop_bit 8 (opcode AND 0x0F00);
     rs \<leftarrow> slice_set (registers vm) (unat vX) (delayTimer vm);
     Some (None, vm\<lparr>registers := rs, pc := pc vm + InstructionSize\<rparr>)
   }"

text \<open>
  The loop of \<open>keyInstruction\<close> over \<open>range vm.keypad\<close>: every pressed key is
  stored in \<open>VX\<close> in turn (the highest pressed key stays) and sets \<open>keyPressed\<close>.
\<close>

fun keyLoop :: "u8 list \<Rightarrow> nat \<Rightarrow> nat list \<Rightarrow> u8 list \<times> bool \<Rightarrow> (u8 list \<times> bool) option" where
  "keyLoop kp vX [] (rs, keyPressed) = Some (rs, keyPressed)"
| "keyLoop kp vX (i # is) (rs, keyPressed) =
     (if kp ! i \<noteq> 0 then do {
        rs' \<leftarrow> slice_set rs vX (word_of_nat i);
        keyLoop kp vX is (rs', True)
      } else keyLoop kp vX is (rs, keyPressed))"

definition key_Execute :: "VM \<Rightarrow> u16 \<Rightarrow> result" where
  "key_Execute vm opcode = do {
     let vX = drop_bit 8 (opcode AND 0x0F00);
     (rs, keyPressed) \<leftarrow>
       keyLoop (keypad vm) (unat vX) [0..<length (keypad vm)] (registers vm, False);
     if \<not> keyPressed then Some (None, vm\<lparr>registers := rs\<rparr>)
     else Some (None, vm\<lparr>registers := rs, pc := pc vm + InstructionSize\<rparr>)
   }"

definition sdelay_Execute :: "VM \<Rightarrow> u16 \<Rightarrow> result" where
  "sdelay_Execute vm opcode = do {
     let vX = drop_bit 8 (opcode AND 0x0F00);
     x \<leftarrow> slice_get (registers vm) (unat vX);
     Some (None, vm\<lparr>delayTimer := x, pc := pc vm + InstructionSize\<rparr>)
   }"

definition ssound_Execute :: "VM \<Rightarrow> u16 \<Rightarrow> result" where
  "ssound_Execute vm opcode = do {
     let vX = drop_bit 8 (opcode AND 0x0F00);
     x \<leftarrow> slice_get (registers vm) (unat vX);
     Some (None, vm\<lparr>soundTimer := x, pc := pc vm + InstructionSize\<rparr>)
   }"

subsection \<open>Index register and memory\<close>

definition adi_Execute :: "VM \<Rightarrow> u16 \<Rightarrow> result" where
  "adi_Execute vm opcode = do {
     let vX = drop_bit 8 (opcode AND 0x0F00);
     r \<leftarrow> slice_get (registers vm) (unat vX);
     let x = (ucast r :: u16);
     rs \<leftarrow> slice_set (registers vm) 0x0F (if index vm + x > 0x0FFF then 1 else 0);
     Some (None, vm\<lparr>registers := rs, index := index vm + x,
                      pc := pc vm + InstructionSize\<rparr>)
   }"

definition font_Execute :: "VM \<Rightarrow> u16 \<Rightarrow> result" where
  "font_Execute vm opcode = do {
     let vX = drop_bit 8 (opcode AND 0x0F00);
     r \<leftarrow> slice_get (registers vm) (unat vX);
     let x = (ucast r :: u16);
     let x = x * 0x5;
     Some (None, vm\<lparr>index := x, pc := pc vm + InstructionSize\<rparr>)
   }"

definition bcd_Execute :: "VM \<Rightarrow> u16 \<Rightarrow> result" where
  "bcd_Execute vm opcode = do {
     let vX = drop_bit 8 (opcode AND 0x0F00);
     x \<leftarrow> slice_get (registers vm) (unat vX);
     m \<leftarrow> slice_set (memory vm) (unat (index vm)) (x div 100);
     m \<leftarrow> slice_set m (unat (index vm + 1)) ((x div 10) mod 10);
     m \<leftarrow> slice_set m (unat (index vm + 2)) (x mod 10);
     Some (None, vm\<lparr>memory := m, pc := pc vm + InstructionSize\<rparr>)
   }"

text \<open>
  The loops of \<open>strInstruction\<close> and \<open>ldrInstruction\<close>, over \<open>i = 0, ..., n\<close>
  inclusive; the address \<open>vm.index + i\<close> is a 16-bit sum.
\<close>

fun strLoop :: "u8 list \<Rightarrow> u16 \<Rightarrow> nat list \<Rightarrow> u8 list \<Rightarrow> u8 list option" where
  "strLoop rs idx [] m = Some m"
| "strLoop rs idx (i # is) m = do {
     r \<leftarrow> slice_get rs i;
     m' \<leftarrow> slice_set m (unat (idx + word_of_nat i)) r;
     strLoop rs idx is m'
   }"

definition str_Execute :: "VM \<Rightarrow> u16 \<Rightarrow> result" where
  "str_Execute vm opcode = do {
     let n = drop_bit 8 (opcode AND 0x0F00);
     m \<leftarrow> strLoop (registers vm) (index vm) [0..<Suc (unat n)] (memory vm);
     Some (None, vm\<lparr>memory := m, index := index vm + (n + 1),
                      pc := pc vm + InstructionSize\<rparr>)
   }"

fun ldrLoop :: "u8 list \<Rightarrow> u16 \<Rightarrow> nat list \<Rightarrow> u8 list \<Rightarrow> u8 list option" where
  "ldrLoop m idx [] rs = Some rs"
| "ldrLoop m idx (i # is) rs = do {
     v \<leftarrow> slice_get m (unat (idx + word_of_nat i));
     rs' \<leftarrow> slice_set rs i v;
     ldrLoop m idx is rs'
   }"

definition ldr_Execute :: "VM \<Rightarrow> u16 \<Rightarrow> result" where
  "ldr_Execute vm opcode = do {
     let n = drop_bit 8 (opcode AND 0x0F00);
     rs \<leftarrow> ldrLoop (memory vm) (index vm) [0..<Suc (unat n)] (registers vm);
     Some (None, vm\<lparr>registers := rs, index := index vm + (n + 1),
                      pc := pc vm + InstructionSize\<rparr>)
   }"

definition unknown_Execute :: "VM \<Rightarrow> u16 \<Rightarrow> result" where
  "unknown_Execute vm opcode = Some (Some (errUnknownOpcode opcode), vm)"

section \<open>Dispatch and the step\<close>

fun Execute :: "instruction \<Rightarrow> nat \<Rightarrow> VM \<Rightarrow> u16 \<Rightarrow> result" where
  "Execute clsInstruction rnd = cls_Execute"
| "Execute rtsInstruction rnd = rts_Execute"
| "Execute jmpInstruction rnd = jmp_Execute"
| "Execute jsrInstruction rnd = jsr_Execute"
| "Execute skeq1Instruction rnd = skeq1_Execute"
| "Execute skne1Instruction rnd = skne1_Execute"
| "Execute skeq2Instruction rnd = skeq2_Execute"
| "Execute mov1Instruction rnd = mov1_Execute"
| "Execute add1Instruction rnd = add1_Execute"
| "Execute mov2Instruction rnd = mov2_Execute"
| "Execute orInstruction rnd = or_Execute"
| "Execute andInstruction rnd = and_Execute"
| "Execute xorInstruction rnd = xor_Execute"
| "Execute add2Instruction rnd = add2_Execute"
| "Execute subInstruction rnd = sub_Execute"
| "Execute shrInstruction rnd = shr_Execute"
| "Execute rsbInstruction rnd = rsb_Execute"
| "Execute shlInstruction rnd = shl_Execute"
| "Execute skne2Instruction rnd = skne2_Execute"
| "Execute mviInstruction rnd = mvi_Execute"
| "Execute jmiInstruction rnd = jmi_Execute"
| "Execute randInstruction rnd = rand_Execute rnd"
| "Execute spriteInstruction rnd = sprite_Execute"
| "Execute skprInstruction rnd = skpr_Execute"
| "Execute skupInstruction rnd = skup_Execute"
| "Execute gdelayInstruction rnd = gdelay_Execute"
| "Execute keyInstruction rnd = key_Execute"
| "Execute sdelayInstruction rnd = sdelay_Execute"
| "Execute ssoundInstruction rnd = ssound_Execute"
| "Execute adiInstruction rnd = adi_Execute"
| "Execute fontInstruction rnd = font_Execute"
| "Execute bcdInstruction rnd = bcd_Execute"
| "Execute strInstruction rnd = str_Execute"
| "Execute ldrInstruction rnd = ldr_Execute"
| "Execute unknownInstruction rnd = unknown_Execute"

definition executeOpcode :: "nat \<Rightarrow> VM \<Rightarrow> u16 \<Rightarrow> result" where
  "executeOpcode rnd vm opcode = (let instr = decode opcode in Execute instr rnd vm opcode)"

definition fetchOpcode :: "VM \<Rightarrow> u16 option" where
  "fetchOpcode vm = do {
     hi \<leftarrow> slice_get (memory vm) (unat (pc vm));
     lo \<leftarrow> slice_get (memory vm) (unat (pc vm + 1));
     Some (push_bit 8 (ucast hi :: u16) OR (ucast lo :: u16))
   }"

text \<open>
  \<open>VM.step\<close>. The host is the interface \<open>HAL\<close>; of it the step calls \<open>Beep\<close>
  only, which is the parameter \<open>Beep\<close>: a function from the host's state to the
  error it returns and the host's next state. An error of the instruction is
  returned before the timers are touched; an error of \<open>Beep\<close> is returned after the
  delay timer was updated and before the sound timer is.
\<close>

definition step :: "('h \<Rightarrow> error option \<times> 'h) \<Rightarrow> nat \<Rightarrow> VM \<Rightarrow> 'h
    \<Rightarrow> (error option \<times> VM \<times> 'h) option" where
  "step Beep rnd vm hal = do {
     opcode \<leftarrow> fetchOpcode vm;
     (err, vm) \<leftarrow> executeOpcode rnd vm opcode;
     (case err of
        Some e \<Rightarrow> Some (Some e, vm, hal)
      | None \<Rightarrow>
         (let vm = (if delayTimer vm > 0 then vm\<lparr>delayTimer := delayTimer vm - 1\<rparr> else vm) in
          if soundTimer vm > 0 then
            (if soundTimer vm = 1 then
               (case Beep hal of
                  (Some e, hal') \<Rightarrow> Some (Some e, vm, hal')
                | (None, hal') \<Rightarrow> Some (None, vm\<lparr>soundTimer := soundTimer vm - 1\<rparr>, hal'))
             else Some (None, vm\<lparr>soundTimer := soundTimer vm - 1\<rparr>, hal))
          else Some (None, vm, hal)))
   }"

section \<open>The cells a sprite covers\<close>

text \<open>
  Vocabulary for the statements about \<open>spriteInstruction\<close>. \<open>spriteCells\<close> lists
  the frame buffer addresses that the set bits of the sprite rows \<open>ys\<close> land on, in
  the order the two loops visit them: row \<open>y\<close> is the byte at \<open>y + idx\<close>, bit \<open>x\<close> of
  it is tested with the mask \<open>0x80 >> x\<close>, and its cell is
  \<open>getScreenAddr (x + xLocation) (y + yLocation)\<close>.
\<close>

definition spriteCells :: "u8 list \<Rightarrow> u16 \<Rightarrow> u16 \<Rightarrow> u16 \<Rightarrow> nat list \<Rightarrow> nat list" where
  "spriteCells mem idx xLocation yLocation ys =
     map (\<lambda>(y, x). unat (getScreenAddr (word_of_nat x + xLocation) (word_of_nat y + yLocation)))
       (filter (\<lambda>(y, x). mem ! unat (word_of_nat y + idx) AND drop_bit x 0x80 \<noteq> 0)
          (List.product ys [0..<8]))"

text \<open>
  \<open>toggles\<close> is what the loops do at each such cell, in turn: a cell that is not
  zero sets the collision flag, and the cell is XORed with 1.
\<close>

fun toggles :: "nat list \<Rightarrow> u8 list \<times> u8 \<Rightarrow> u8 list \<times> u8" where
  "toggles [] st = st"
| "toggles (a # as) (g, c) = toggles as (g[a := g ! a XOR 1], if g ! a \<noteq> 0 then 1 else c)"

section \<open>Example machines\<close>

text \<open>
  A machine as \<open>New\<close> makes it, with the program counter at \<open>ProgramStart\<close> (where
  \<open>initialize\<close> puts it) and the sixteen registers given.
\<close>

definition vm_regs :: "u8 list \<Rightarrow> VM" where
  "vm_regs rs = (New [])\<lparr>pc := ProgramStart, registers := rs\<rparr>"

text \<open>
  A machine with the program \<open>prog\<close> at \<open>ProgramStart\<close> in an otherwise zero
  memory, and the program counter on it.
\<close>

definition vm_boot :: "u8 list \<Rightarrow> VM" where
  "vm_boot prog = (New prog)\<lparr>pc := ProgramStart,
     memory := replicate 512 0 @ prog @ replicate (MemorySize - 512 - length prog) 0\<rparr>"

text \<open>
  A machine with the registers \<open>rs\<close>, the index register \<open>i\<close> and the bytes
  \<open>bytes\<close> at address \<open>i\<close> of an otherwise zero memory.
\<close>

definition vm_mem :: "u8 list \<Rightarrow> u16 \<Rightarrow> u8 list \<Rightarrow> VM" where
  "vm_mem rs i bytes = (New [])\<lparr>pc := ProgramStart, registers := rs, index := i,
     memory := replicate (unat i) 0 @ bytes @ replicate (MemorySize - unat i - length bytes) 0\<rparr>"

text \<open>The same machine with the frame buffer cells \<open>lit\<close> set to 1.\<close>

definition vm_gfx :: "u8 list \<Rightarrow> u16 \<Rightarrow> u8 list \<Rightarrow> nat list \<Rightarrow> VM" where
  "vm_gfx rs i bytes lit =
     (vm_mem rs i bytes)\<lparr>gfx := fold (\<lambda>a g. g[a := 1]) lit (gfx (vm_mem rs i bytes))\<rparr>"

text \<open>A host whose \<open>Beep\<close> never fails; its state counts the beeps.\<close>

definition beep_counter :: "nat \<Rightarrow> error option \<times> nat" where
  "beep_counter n = (None, Suc n)"

section \<open>Operand fields and decoding\<close>

text \<open>The register fields of an opcode are nibbles: they index sixteen registers.\<close>

lemma nibX_lt: "unat (drop_bit 8 (opcode AND 0x0F00 :: u16)) < 16"
proof -
  have "opcode AND 0x0F00 \<le> 0x0F00" by (rule word_and_le1)
  then have "unat (opcode AND 0x0F00) \<le> 3840" by (simp add: word_le_nat_alt)
  then show ?thesis by (simp add: unat_drop_bit_eq drop_bit_eq_div unat_div)
qed

lemma nibY_lt: "unat (drop_bit 4 (opcode AND 0x00F0 :: u16)) < 16"
proof -
  have "opcode AND 0x00F0 \<le> 0x00F0" by (rule word_and_le1)
  then have "unat (opcode AND 0x00F0) \<le> 240" by (simp add: word_le_nat_alt)
  then show ?thesis by (simp add: unat_drop_bit_eq drop_bit_eq_div unat_div)
qed

lemma nibN_lt: "unat (opcode AND 0x000F :: u16) < 16"
proof -
  have "opcode AND 0x000F \<le> 0x000F" by (rule word_and_le1)
  then have "unat (opcode AND 0x000F) \<le> 15" by (simp add: word_le_nat_alt)
  then show ?thesis by simp
qed

text \<open>A masked opcode determines every field under a smaller mask.\<close>

lemma and_submask:
  fixes opcode :: u16
  assumes "opcode AND m = v" and "m AND m' = m'"
  shows "opcode AND m' = v AND m'"
proof -
  have "opcode AND m' = opcode AND (m AND m')" using assms(2) by simp
  also have "\<dots> = (opcode AND m) AND m'" by (simp add: and.assoc)
  finally show ?thesis using assms(1) by simp
qed

lemma nibX_F:
  fixes opcode :: u16
  assumes "opcode AND 0xFF0F = v" and "v AND 0x0F00 = 0x0F00"
  shows "15 = unat (drop_bit 8 (opcode AND 0x0F00))"
proof -
  have "opcode AND 0x0F00 = 0x0F00" using and_submask [OF assms(1), of "0x0F00"] assms(2) by simp
  then have "drop_bit 8 (opcode AND 0x0F00) = drop_bit 8 (0x0F00 :: u16)" by (rule arg_cong)
  then have "unat (drop_bit 8 (opcode AND 0x0F00)) = unat (drop_bit 8 (0x0F00 :: u16))" by (rule arg_cong)
  then show ?thesis by simp
qed

lemma decode_add2: "opcode AND 0xF00F = 0x8004 \<Longrightarrow> decode opcode = add2Instruction"
  using and_submask [of opcode "0xF00F" "0x8004" "0xF000"]
    and_submask [of opcode "0xF00F" "0x8004" "0x000F"]
  by (simp add: decode_def)

section \<open>Arithmetic with the flag register\<close>

text \<open>The comparison of \<open>add2Instruction\<close> tests the top bit of the sum.\<close>

lemma flag_msb: "((r::u8) > 0xFF - r) = (128 \<le> unat r)"
proof -
  have "unat r < 256" using unsigned_less [of r, where 'a = nat] by simp
  then show ?thesis by (auto simp add: word_less_nat_alt unat_sub_if')
qed

lemma add2_general:
  assumes len: "length (registers vm) = 16"
    and X: "X = unat (drop_bit 8 (opcode AND 0x0F00))"
    and Y: "Y = unat (drop_bit 4 (opcode AND 0x00F0))"
    and r: "r = registers vm ! X + registers vm ! Y"
  shows "add2_Execute vm opcode =
     Some (None, vm\<lparr>registers := (registers vm)[X := r, 15 := (if r > 0xFF - r then 1 else 0)],
                      pc := pc vm + 2\<rparr>)"
proof -
  have "X < 16" "Y < 16" using X Y nibX_lt nibY_lt by auto
  then show ?thesis using len X Y r
    by (simp add: add2_Execute_def slice_get_def slice_set_def InstructionSize_def Let_def)
qed

lemma sub_general:
  assumes len: "length (registers vm) = 16"
    and X: "X = unat (drop_bit 8 (opcode AND 0x0F00))"
    and Y: "Y = unat (drop_bit 4 (opcode AND 0x00F0))"
  shows "sub_Execute vm opcode =
     Some (None, vm\<lparr>registers := (registers vm)
        [15 := (if registers vm ! Y > registers vm ! X then 0 else 1),
         X := registers vm ! X - registers vm ! Y], pc := pc vm + 2\<rparr>)"
proof -
  have "X < 16" "Y < 16" using X Y nibX_lt nibY_lt by auto
  then show ?thesis using len X Y
    by (simp add: sub_Execute_def slice_get_def slice_set_def InstructionSize_def Let_def)
qed

lemma shr_general:
  assumes len: "length (registers vm) = 16"
    and X: "X = unat (drop_bit 8 (opcode AND 0x0F00))"
  shows "shr_Execute vm opcode =
     Some (None, vm\<lparr>registers := (registers vm)
        [15 := registers vm ! X AND 1, X := drop_bit 1 (registers vm ! X)], pc := pc vm + 2\<rparr>)"
proof -
  have "X < 16" using X nibX_lt by auto
  then show ?thesis using len X
    by (simp add: shr_Execute_def slice_get_def slice_set_def InstructionSize_def Let_def)
qed

lemma shl_general:
  assumes len: "length (registers vm) = 16"
    and X: "X = unat (drop_bit 8 (opcode AND 0x0F00))"
  shows "shl_Execute vm opcode =
     Some (None, vm\<lparr>registers := (registers vm)
        [15 := drop_bit 7 (registers vm ! X), X := push_bit 1 (registers vm ! X)],
        pc := pc vm + 2\<rparr>)"
proof -
  have "X < 16" using X nibX_lt by auto
  then show ?thesis using len X
    by (simp add: shl_Execute_def slice_get_def slice_set_def InstructionSize_def Let_def)
qed

text \<open>
  C1. The spec's example for add-reg: \<open>VX = 0xFF\<close>, \<open>VY = 0x01\<close> should give
  \<open>VX = 0x00\<close> and \<open>VF = 1\<close>, the carry out of bit 7. Executing \<open>8014\<close> on a machine
  with \<open>V0 = 0xFF\<close> and \<open>V1 = 0x01\<close> gives \<open>V0 = 0x00\<close> and leaves \<open>VF = 0\<close>: the
  sum carried, and the flag the code computes from the wrapped sum is 0.
\<close>

theorem C1_add_reg_carry_lost:
  "executeOpcode 0 (vm_regs [0xFF, 0x01, 0, 0, 0, 0, 0, 0, 0, 0, 0, 0, 0, 0, 0, 0]) 0x8014 =
     Some (None, (vm_regs [0x00, 0x01, 0, 0, 0, 0, 0, 0, 0, 0, 0, 0, 0, 0, 0, 0])\<lparr>pc := 0x202\<rparr>)"
  by code_simp

text \<open>
  C5. Executing add-reg \<open>8XY4\<close>, for all register values: the register file
  becomes the old one with \<open>VX := r\<close> and then \<open>VF := flag\<close>, where \<open>r\<close> is
  \<open>(VX + VY) mod 256\<close> and \<open>flag\<close> is 1 exactly when \<open>r\<close> exceeds \<open>0xFF - r\<close>, a
  comparison on the wrapped sum. So \<open>VF\<close> ends as that flag, and \<open>VX\<close> ends as \<open>r\<close>
  whenever \<open>X\<close> is not the flag register.
\<close>

theorem C5_add_reg_post_addition_comparison:
  assumes len: "length (registers vm) = 16"
    and op: "opcode AND 0xF00F = 0x8004"
    and X: "X = unat (drop_bit 8 (opcode AND 0x0F00))"
    and Y: "Y = unat (drop_bit 4 (opcode AND 0x00F0))"
    and r: "r = registers vm ! X + registers vm ! Y"
    and f: "flag = (if r > 0xFF - r then 1 else 0)"
  shows "executeOpcode rnd vm opcode =
           Some (None, vm\<lparr>registers := (registers vm)[X := r, 15 := flag], pc := pc vm + 2\<rparr>)
       \<and> unat r = (unat (registers vm ! X) + unat (registers vm ! Y)) mod 256
       \<and> (registers vm)[X := r, 15 := flag] ! 15 = flag
       \<and> (X \<noteq> 15 \<longrightarrow> (registers vm)[X := r, 15 := flag] ! X = r)"
proof -
  have "X < 16" using X nibX_lt by simp
  have "executeOpcode rnd vm opcode = add2_Execute vm opcode"
    using decode_add2 [OF op] by (simp add: executeOpcode_def)
  moreover have "unat r = (unat (registers vm ! X) + unat (registers vm ! Y)) mod 256"
    using r by (simp add: unat_word_ariths)
  ultimately show ?thesis
    using add2_general [OF len X Y r] f len \<open>X < 16\<close> by simp
qed

theorem C5_witness:
  "executeOpcode 0 (vm_regs [0x90, 0x20, 0, 0, 0, 0, 0, 0, 0, 0, 0, 0, 0, 0, 0, 7]) 0x8014 =
     Some (None, (vm_regs [0x90, 0x20, 0, 0, 0, 0, 0, 0, 0, 0, 0, 0, 0, 0, 0, 7])
        \<lparr>registers := [0xB0, 0x20, 0, 0, 0, 0, 0, 0, 0, 0, 0, 0, 0, 0, 0, 1], pc := 0x202\<rparr>)
   \<and> unat (0xB0 :: u8) = (unat (0x90 :: u8) + unat (0x20 :: u8)) mod 256"
proof -
  let ?vm = "vm_regs [0x90, 0x20, 0, 0, 0, 0, 0, 0, 0, 0, 0, 0, 0, 0, 0, 7]"
  have len: "length (registers ?vm) = 16" by (simp add: vm_regs_def)
  have op: "(0x8014 :: u16) AND 0xF00F = 0x8004" by simp
  have X: "(0::nat) = unat (drop_bit 8 ((0x8014 :: u16) AND 0x0F00))" by simp
  have Y: "(1::nat) = unat (drop_bit 4 ((0x8014 :: u16) AND 0x00F0))" by simp
  have r: "(0xB0 :: u8) = registers ?vm ! 0 + registers ?vm ! 1" by (simp add: vm_regs_def)
  have f: "(1 :: u8) = (if (0xB0 :: u8) > 0xFF - 0xB0 then 1 else 0)" by simp
  show ?thesis
    using C5_add_reg_post_addition_comparison [OF len op X Y r f, of 0]
    by (simp add: vm_regs_def ProgramStart_def)
qed

text \<open>
  C10. With the flag register as destination (\<open>X = 0xF\<close>): sub \<open>8FY5\<close>, shr \<open>8FY6\<close>
  and shl \<open>8FYE\<close> leave \<open>VF\<close> equal to the difference or the shifted value, since the
  result is written after the flag; add-reg \<open>8FY4\<close> writes the sum first and the
  flag second, so \<open>VF\<close> ends as the flag computed from the wrapped sum \<open>s\<close>.
\<close>

theorem C10_flag_register_as_destination:
  assumes len: "length (registers vm) = 16"
    and sub: "o5 AND 0xFF0F = 0x8F05"
    and shr: "o6 AND 0xFF0F = 0x8F06"
    and shl: "oE AND 0xFF0F = 0x8F0E"
    and add: "o4 AND 0xFF0F = 0x8F04"
    and s: "s = registers vm ! 15 + registers vm ! unat (drop_bit 4 (o4 AND 0x00F0))"
  shows "executeOpcode rnd vm o5 =
           Some (None, vm\<lparr>registers := (registers vm)
              [15 := registers vm ! 15 - registers vm ! unat (drop_bit 4 (o5 AND 0x00F0))],
              pc := pc vm + 2\<rparr>)
       \<and> executeOpcode rnd vm o6 =
           Some (None, vm\<lparr>registers := (registers vm)[15 := drop_bit 1 (registers vm ! 15)],
              pc := pc vm + 2\<rparr>)
       \<and> executeOpcode rnd vm oE =
           Some (None, vm\<lparr>registers := (registers vm)[15 := push_bit 1 (registers vm ! 15)],
              pc := pc vm + 2\<rparr>)
       \<and> executeOpcode rnd vm o4 =
           Some (None, vm\<lparr>registers := (registers vm)[15 := (if s > 0xFF - s then 1 else 0)],
              pc := pc vm + 2\<rparr>)"
proof -
  have d5: "decode o5 = subInstruction"
    using and_submask [OF sub, of "0xF000"] and_submask [OF sub, of "0x000F"]
    by (simp add: decode_def)
  have d6: "decode o6 = shrInstruction"
    using and_submask [OF shr, of "0xF000"] and_submask [OF shr, of "0x000F"]
    by (simp add: decode_def)
  have dE: "decode oE = shlInstruction"
    using and_submask [OF shl, of "0xF000"] and_submask [OF shl, of "0x000F"]
    by (simp add: decode_def)
  have d4: "decode o4 = add2Instruction"
    using and_submask [OF add, of "0xF000"] and_submask [OF add, of "0x000F"]
    by (simp add: decode_def)
  have x5: "15 = unat (drop_bit 8 (o5 AND 0x0F00))" by (rule nibX_F [OF sub]) simp
  have x6: "15 = unat (drop_bit 8 (o6 AND 0x0F00))" by (rule nibX_F [OF shr]) simp
  have xE: "15 = unat (drop_bit 8 (oE AND 0x0F00))" by (rule nibX_F [OF shl]) simp
  have x4: "15 = unat (drop_bit 8 (o4 AND 0x0F00))" by (rule nibX_F [OF add]) simp
  have c5: "executeOpcode rnd vm o5 = Some (None, vm\<lparr>registers := (registers vm)
              [15 := registers vm ! 15 - registers vm ! unat (drop_bit 4 (o5 AND 0x00F0))],
              pc := pc vm + 2\<rparr>)"
    using sub_general [OF len x5 refl] by (simp add: executeOpcode_def d5)
  have c6: "executeOpcode rnd vm o6 =
           Some (None, vm\<lparr>registers := (registers vm)[15 := drop_bit 1 (registers vm ! 15)],
              pc := pc vm + 2\<rparr>)"
    using shr_general [OF len x6] by (simp add: executeOpcode_def d6)
  have cE: "executeOpcode rnd vm oE =
           Some (None, vm\<lparr>registers := (registers vm)[15 := push_bit 1 (registers vm ! 15)],
              pc := pc vm + 2\<rparr>)"
    using shl_general [OF len xE] by (simp add: executeOpcode_def dE)
  have c4: "executeOpcode rnd vm o4 =
           Some (None, vm\<lparr>registers := (registers vm)[15 := (if s > 0xFF - s then 1 else 0)],
              pc := pc vm + 2\<rparr>)"
    using add2_general [OF len x4 refl s] by (simp add: executeOpcode_def d4)
  show ?thesis using c5 c6 cE c4 by blast
qed

theorem C10_witness:
  "executeOpcode 0 (vm_regs [0, 3, 0, 0, 0, 0, 0, 0, 0, 0, 0, 0, 0, 0, 0, 0x85]) 0x8F15 =
     Some (None, (vm_regs [0, 3, 0, 0, 0, 0, 0, 0, 0, 0, 0, 0, 0, 0, 0, 0x82])\<lparr>pc := 0x202\<rparr>)
   \<and> executeOpcode 0 (vm_regs [0, 3, 0, 0, 0, 0, 0, 0, 0, 0, 0, 0, 0, 0, 0, 0x85]) 0x8F16 =
     Some (None, (vm_regs [0, 3, 0, 0, 0, 0, 0, 0, 0, 0, 0, 0, 0, 0, 0, 0x42])\<lparr>pc := 0x202\<rparr>)
   \<and> executeOpcode 0 (vm_regs [0, 3, 0, 0, 0, 0, 0, 0, 0, 0, 0, 0, 0, 0, 0, 0x85]) 0x8F1E =
     Some (None, (vm_regs [0, 3, 0, 0, 0, 0, 0, 0, 0, 0, 0, 0, 0, 0, 0, 0x0A])\<lparr>pc := 0x202\<rparr>)
   \<and> executeOpcode 0 (vm_regs [0, 3, 0, 0, 0, 0, 0, 0, 0, 0, 0, 0, 0, 0, 0, 0x85]) 0x8F14 =
     Some (None, (vm_regs [0, 3, 0, 0, 0, 0, 0, 0, 0, 0, 0, 0, 0, 0, 0, 0x01])\<lparr>pc := 0x202\<rparr>)"
proof -
  let ?vm = "vm_regs [0, 3, 0, 0, 0, 0, 0, 0, 0, 0, 0, 0, 0, 0, 0, 0x85]"
  have len: "length (registers ?vm) = 16" by (simp add: vm_regs_def)
  have o5: "(0x8F15 :: u16) AND 0xFF0F = 0x8F05" by simp
  have o6: "(0x8F16 :: u16) AND 0xFF0F = 0x8F06" by simp
  have oE: "(0x8F1E :: u16) AND 0xFF0F = 0x8F0E" by simp
  have o4: "(0x8F14 :: u16) AND 0xFF0F = 0x8F04" by simp
  have s: "(0x88 :: u8) = registers ?vm ! 15 + registers ?vm ! unat (drop_bit 4 ((0x8F14 :: u16) AND 0x00F0))"
    by (simp add: vm_regs_def)
  show ?thesis
    using C10_flag_register_as_destination [OF len o5 o6 oE o4 s, of 0]
    by (simp add: vm_regs_def ProgramStart_def)
qed

section \<open>Jumps, unknown opcodes and the address registers\<close>

lemma decode_jmp: "opcode AND 0xF000 = 0x1000 \<Longrightarrow> decode opcode = jmpInstruction"
  by (simp add: decode_def)

lemma decode_adi: "opcode AND 0xF0FF = 0xF01E \<Longrightarrow> decode opcode = adiInstruction"
  using and_submask [of opcode "0xF0FF" "0xF01E" "0xF000"]
    and_submask [of opcode "0xF0FF" "0xF01E" "0x00FF"]
  by (simp add: decode_def)

lemma and_0FFF_idem: "((w :: u16) AND 0x0FFF) AND 0x0FFF = w AND 0x0FFF"
  by (simp add: and.assoc)

text \<open>
  C6. Executing a jump \<open>1NNN\<close> in any machine state: when \<open>NNN\<close> equals the program
  counter the instruction returns \<open>errInfiniteLoop\<close> and the machine is unchanged
  (and the step that fetched it returns the same error with machine and host
  unchanged, timers included); otherwise it sets the program counter to \<open>NNN\<close> and
  changes nothing else.
\<close>

theorem C6_jump_to_self_halts:
  assumes op: "opcode AND 0xF000 = 0x1000"
  shows "executeOpcode rnd vm opcode =
           (if opcode AND 0x0FFF = pc vm then Some (Some errInfiniteLoop, vm)
            else Some (None, vm\<lparr>pc := opcode AND 0x0FFF\<rparr>))
       \<and> (fetchOpcode vm = Some opcode \<and> opcode AND 0x0FFF = pc vm
            \<longrightarrow> step Beep rnd vm hal = Some (Some errInfiniteLoop, vm, hal))"
proof -
  have e: "executeOpcode rnd vm opcode =
           (if opcode AND 0x0FFF = pc vm then Some (Some errInfiniteLoop, vm)
            else Some (None, vm\<lparr>pc := opcode AND 0x0FFF\<rparr>))"
    by (simp add: executeOpcode_def decode_jmp [OF op] jmp_Execute_def)
  then show ?thesis by (simp add: step_def)
qed

theorem C6_witness:
  "executeOpcode 0 (vm_boot [0x12, 0x00]) 0x1200 = Some (Some errInfiniteLoop, vm_boot [0x12, 0x00])
   \<and> step (\<lambda>n :: nat. (None, Suc n)) 0 (vm_boot [0x12, 0x00]) 0
        = Some (Some errInfiniteLoop, vm_boot [0x12, 0x00], 0)
   \<and> executeOpcode 0 (vm_boot [0x12, 0x00]) 0x1300 = Some (None, (vm_boot [0x12, 0x00])\<lparr>pc := 0x300\<rparr>)"
proof -
  let ?vm = "vm_boot [0x12, 0x00]"
  have op: "(0x1200 :: u16) AND 0xF000 = 0x1000" by simp
  have op': "(0x1300 :: u16) AND 0xF000 = 0x1000" by simp
  have f: "fetchOpcode ?vm = Some 0x1200" by code_simp
  have p: "pc ?vm = 0x200" by (simp add: vm_boot_def ProgramStart_def)
  show ?thesis
    using C6_jump_to_self_halts [OF op, of 0 ?vm "(\<lambda>n :: nat. (None, Suc n))" 0]
      C6_jump_to_self_halts [OF op', of 0 ?vm "(\<lambda>n :: nat. (None, Suc n))" 0] f p
    by simp
qed

text \<open>
  C7. An opcode that \<open>decode\<close> maps to no instruction (it returns
  \<open>unknownInstruction\<close>, as for \<open>0xFFFF\<close>) fails with the unknown-opcode error that
  carries the opcode, and the machine is unchanged; the step that fetched it
  returns that error, with machine and host unchanged.
\<close>

theorem C7_unknown_opcode_fails:
  assumes un: "decode opcode = unknownInstruction"
  shows "executeOpcode rnd vm opcode = Some (Some (errUnknownOpcode opcode), vm)
       \<and> (fetchOpcode vm = Some opcode
            \<longrightarrow> step Beep rnd vm hal = Some (Some (errUnknownOpcode opcode), vm, hal))"
  by (simp add: executeOpcode_def un unknown_Execute_def step_def)

theorem C7_witness:
  "decode 0xFFFF = unknownInstruction
   \<and> executeOpcode 0 (vm_boot [0xFF, 0xFF]) 0xFFFF
        = Some (Some (errUnknownOpcode 0xFFFF), vm_boot [0xFF, 0xFF])
   \<and> step (\<lambda>n :: nat. (None, Suc n)) 0 (vm_boot [0xFF, 0xFF]) 0
        = Some (Some (errUnknownOpcode 0xFFFF), vm_boot [0xFF, 0xFF], 0)"
proof -
  let ?vm = "vm_boot [0xFF, 0xFF]"
  have un: "decode 0xFFFF = unknownInstruction" by (simp add: decode_def)
  have f: "fetchOpcode ?vm = Some 0xFFFF" by code_simp
  show ?thesis
    using C7_unknown_opcode_fails [OF un, of 0 ?vm "(\<lambda>n :: nat. (None, Suc n))" 0] un f
    by simp
qed

text \<open>
  C4, as stated, fails: jump+offset \<open>BFFF\<close> with \<open>V0 = 1\<close> stores \<open>0x1000\<close> in the
  program counter, and add-to-index \<open>F01E\<close> with \<open>I = 0x0FFF\<close> and \<open>V0 = 1\<close> stores
  \<open>0x1000\<close> in the index register; \<open>0x1000\<close> is not its own value masked with
  \<open>0x0FFF\<close>.
\<close>

theorem C4_counterexample:
  "executeOpcode 0 (vm_regs [1, 0, 0, 0, 0, 0, 0, 0, 0, 0, 0, 0, 0, 0, 0, 0]) 0xBFFF =
     Some (None, (vm_regs [1, 0, 0, 0, 0, 0, 0, 0, 0, 0, 0, 0, 0, 0, 0, 0])\<lparr>pc := 0x1000\<rparr>)
   \<and> (0x1000 :: u16) AND 0x0FFF \<noteq> 0x1000
   \<and> executeOpcode 0 ((vm_regs [1, 0, 0, 0, 0, 0, 0, 0, 0, 0, 0, 0, 0, 0, 0, 0])\<lparr>index := 0x0FFF\<rparr>) 0xF01E =
     Some (None, (vm_regs [1, 0, 0, 0, 0, 0, 0, 0, 0, 0, 0, 0, 0, 0, 0, 1])\<lparr>index := 0x1000, pc := 0x202\<rparr>)"
  by code_simp

text \<open>
  C4, amended. The instructions that load the immediate address (jump \<open>1NNN\<close> to
  another address, call \<open>2NNN\<close>, set-index \<open>ANNN\<close>) store \<open>opcode AND 0x0FFF\<close>, which
  equals itself masked with \<open>0x0FFF\<close>. Jump+offset stores the 16-bit sum
  \<open>NNN + V0\<close> and add-to-index the 16-bit sum \<open>I + VX\<close>, neither of them masked.
\<close>

theorem C4_addresses_masked_only_when_immediate:
  assumes len: "length (registers vm) = 16"
    and jump: "oj AND 0xF000 = 0x1000" and other: "oj AND 0x0FFF \<noteq> pc vm"
    and call: "oc AND 0xF000 = 0x2000" and room: "unat (sp vm) < length (stack vm)"
    and seti: "oi AND 0xF000 = 0xA000"
    and jmpo: "ob AND 0xF000 = 0xB000"
    and addi: "oa AND 0xF0FF = 0xF01E"
    and x: "x = ucast (registers vm ! unat (drop_bit 8 (oa AND 0x0F00)))"
  shows "executeOpcode rnd vm oj = Some (None, vm\<lparr>pc := oj AND 0x0FFF\<rparr>)
       \<and> (oj AND 0x0FFF) AND 0x0FFF = oj AND 0x0FFF
       \<and> executeOpcode rnd vm oc =
           Some (None, vm\<lparr>stack := (stack vm)[unat (sp vm) := pc vm], sp := sp vm + 1,
                            pc := oc AND 0x0FFF\<rparr>)
       \<and> (oc AND 0x0FFF) AND 0x0FFF = oc AND 0x0FFF
       \<and> executeOpcode rnd vm oi = Some (None, vm\<lparr>index := oi AND 0x0FFF, pc := pc vm + 2\<rparr>)
       \<and> (oi AND 0x0FFF) AND 0x0FFF = oi AND 0x0FFF
       \<and> executeOpcode rnd vm ob =
           Some (None, vm\<lparr>pc := (ob AND 0x0FFF) + ucast (registers vm ! 0)\<rparr>)
       \<and> executeOpcode rnd vm oa =
           Some (None, vm\<lparr>registers := (registers vm)[15 := (if index vm + x > 0x0FFF then 1 else 0)],
                            index := index vm + x, pc := pc vm + 2\<rparr>)"
proof -
  have cj: "executeOpcode rnd vm oj = Some (None, vm\<lparr>pc := oj AND 0x0FFF\<rparr>)"
    using other by (simp add: executeOpcode_def decode_def jump jmp_Execute_def)
  have cc: "executeOpcode rnd vm oc =
           Some (None, vm\<lparr>stack := (stack vm)[unat (sp vm) := pc vm], sp := sp vm + 1,
                            pc := oc AND 0x0FFF\<rparr>)"
    using room by (simp add: executeOpcode_def decode_def call jsr_Execute_def slice_set_def)
  have ci: "executeOpcode rnd vm oi = Some (None, vm\<lparr>index := oi AND 0x0FFF, pc := pc vm + 2\<rparr>)"
    by (simp add: executeOpcode_def decode_def seti mvi_Execute_def InstructionSize_def)
  have cb: "executeOpcode rnd vm ob =
           Some (None, vm\<lparr>pc := (ob AND 0x0FFF) + ucast (registers vm ! 0)\<rparr>)"
    using len by (simp add: executeOpcode_def decode_def jmpo jmi_Execute_def slice_get_def)
  have "unat (drop_bit 8 (oa AND 0x0F00)) < 16" by (rule nibX_lt)
  then have "adi_Execute vm oa =
           Some (None, vm\<lparr>registers := (registers vm)[15 := (if index vm + x > 0x0FFF then 1 else 0)],
                            index := index vm + x, pc := pc vm + 2\<rparr>)"
    using len x
    by (simp add: adi_Execute_def slice_get_def slice_set_def InstructionSize_def Let_def)
  then have ca: "executeOpcode rnd vm oa =
           Some (None, vm\<lparr>registers := (registers vm)[15 := (if index vm + x > 0x0FFF then 1 else 0)],
                            index := index vm + x, pc := pc vm + 2\<rparr>)"
    by (simp add: executeOpcode_def decode_adi [OF addi])
  show ?thesis using cj cc ci cb ca and_0FFF_idem by blast
qed

theorem C4_witness:
  "executeOpcode 0 ((vm_regs [1, 0, 0, 0, 0, 0, 0, 0, 0, 0, 0, 0, 0, 0, 0, 0])\<lparr>index := 0x0FFF\<rparr>) 0x1ABC =
     Some (None, (vm_regs [1, 0, 0, 0, 0, 0, 0, 0, 0, 0, 0, 0, 0, 0, 0, 0])\<lparr>index := 0x0FFF, pc := 0x0ABC\<rparr>)
   \<and> executeOpcode 0 ((vm_regs [1, 0, 0, 0, 0, 0, 0, 0, 0, 0, 0, 0, 0, 0, 0, 0])\<lparr>index := 0x0FFF\<rparr>) 0x2ABC =
     Some (None, (vm_regs [1, 0, 0, 0, 0, 0, 0, 0, 0, 0, 0, 0, 0, 0, 0, 0])
        \<lparr>index := 0x0FFF, pc := 0x0ABC, sp := 1,
         stack := (replicate StackSize 0)[0 := 0x200]\<rparr>)
   \<and> executeOpcode 0 ((vm_regs [1, 0, 0, 0, 0, 0, 0, 0, 0, 0, 0, 0, 0, 0, 0, 0])\<lparr>index := 0x0FFF\<rparr>) 0xAABC =
     Some (None, (vm_regs [1, 0, 0, 0, 0, 0, 0, 0, 0, 0, 0, 0, 0, 0, 0, 0])\<lparr>index := 0x0ABC, pc := 0x202\<rparr>)
   \<and> executeOpcode 0 ((vm_regs [1, 0, 0, 0, 0, 0, 0, 0, 0, 0, 0, 0, 0, 0, 0, 0])\<lparr>index := 0x0FFF\<rparr>) 0xBFFF =
     Some (None, (vm_regs [1, 0, 0, 0, 0, 0, 0, 0, 0, 0, 0, 0, 0, 0, 0, 0])\<lparr>index := 0x0FFF, pc := 0x1000\<rparr>)
   \<and> executeOpcode 0 ((vm_regs [1, 0, 0, 0, 0, 0, 0, 0, 0, 0, 0, 0, 0, 0, 0, 0])\<lparr>index := 0x0FFF\<rparr>) 0xF01E =
     Some (None, (vm_regs [1, 0, 0, 0, 0, 0, 0, 0, 0, 0, 0, 0, 0, 0, 0, 1])\<lparr>index := 0x1000, pc := 0x202\<rparr>)"
proof -
  let ?vm = "(vm_regs [1, 0, 0, 0, 0, 0, 0, 0, 0, 0, 0, 0, 0, 0, 0, 0])\<lparr>index := 0x0FFF\<rparr>"
  have len: "length (registers ?vm) = 16" by (simp add: vm_regs_def)
  have jump: "(0x1ABC :: u16) AND 0xF000 = 0x1000" by simp
  have other: "(0x1ABC :: u16) AND 0x0FFF \<noteq> pc ?vm" by (simp add: vm_regs_def ProgramStart_def)
  have call: "(0x2ABC :: u16) AND 0xF000 = 0x2000" by simp
  have room: "unat (sp ?vm) < length (stack ?vm)" by (simp add: vm_regs_def New_def StackSize_def)
  have seti: "(0xAABC :: u16) AND 0xF000 = 0xA000" by simp
  have jmpo: "(0xBFFF :: u16) AND 0xF000 = 0xB000" by simp
  have addi: "(0xF01E :: u16) AND 0xF0FF = 0xF01E" by simp
  have x: "(1 :: u16) = ucast (registers ?vm ! unat (drop_bit 8 ((0xF01E :: u16) AND 0x0F00)))"
    by (simp add: vm_regs_def)
  show ?thesis
    using C4_addresses_masked_only_when_immediate [OF len jump other call room seti jmpo addi x, of 0]
    by (simp add: vm_regs_def ProgramStart_def New_def StackSize_def)
qed

section \<open>Timers\<close>

text \<open>
  C2, as stated, fails in the case it excludes: wait-key \<open>F00A\<close> with no key
  pressed returns no error and leaves the program counter where it was, and the
  step still takes the delay timer from 2 to 1, requests the beep and takes the
  sound timer from 1 to 0.
\<close>

theorem C2_counterexample:
  "executeOpcode 0 ((vm_boot [0xF0, 0x0A])\<lparr>delayTimer := 2, soundTimer := 1\<rparr>) 0xF00A =
     Some (None, (vm_boot [0xF0, 0x0A])\<lparr>delayTimer := 2, soundTimer := 1\<rparr>)
   \<and> step beep_counter 0
        ((vm_boot [0xF0, 0x0A])\<lparr>delayTimer := 2, soundTimer := 1\<rparr>) 0 =
     Some (None, (vm_boot [0xF0, 0x0A])\<lparr>delayTimer := 1, soundTimer := 0\<rparr>, 1)"
  by code_simp

text \<open>
  C2, amended. After every instruction that returns no error (skips, jumps and
  the wait-key that did not advance included), the step decrements the delay
  timer if it is not zero and the sound timer if it is not zero, and it calls the
  host's \<open>Beep\<close> once exactly when the sound timer stands at 1, before taking it
  to 0. The timers meant are those the instruction left in \<open>vm1\<close>.
\<close>

theorem C2_timers_after_every_instruction:
  assumes fetch: "fetchOpcode vm = Some opcode"
    and exec: "executeOpcode rnd vm opcode = Some (None, vm1)"
    and beep: "Beep hal = (None, hal1)"
  shows "step Beep rnd vm hal =
     Some (None,
       vm1\<lparr>delayTimer := (if delayTimer vm1 > 0 then delayTimer vm1 - 1 else delayTimer vm1),
           soundTimer := (if soundTimer vm1 > 0 then soundTimer vm1 - 1 else soundTimer vm1)\<rparr>,
       if soundTimer vm1 = 1 then hal1 else hal)"
  using fetch exec beep by (simp add: step_def Let_def)

theorem C2_witness:
  "step beep_counter 0
        ((vm_boot [0x13, 0x00])\<lparr>delayTimer := 2, soundTimer := 1\<rparr>) 0 =
     Some (None, (vm_boot [0x13, 0x00])\<lparr>pc := 0x300, delayTimer := 1, soundTimer := 0\<rparr>, 1)"
proof -
  let ?vm = "(vm_boot [0x13, 0x00])\<lparr>delayTimer := 2, soundTimer := 1\<rparr>"
  have fetch: "fetchOpcode ?vm = Some 0x1300" by code_simp
  have exec: "executeOpcode 0 ?vm 0x1300 = Some (None, ?vm\<lparr>pc := 0x300\<rparr>)" by code_simp
  have beep: "beep_counter 0 = (None, 1)" by (simp add: beep_counter_def)
  show ?thesis
    using C2_timers_after_every_instruction
      [where Beep = beep_counter and hal = 0, OF fetch exec beep]
    by simp
qed

section \<open>Storing and loading registers\<close>

text \<open>An address \<open>vm.index + i\<close> that does not wrap around is the sum of the numbers.\<close>

lemma unat_idx_add:
  assumes "unat (idx :: u16) + i < 65536"
  shows "unat (idx + word_of_nat i) = unat idx + i"
proof -
  have "i < 65536" using assms by simp
  then have "unat (word_of_nat i :: u16) = i" by (simp add: unat_of_nat)
  then show ?thesis using assms by (simp add: unat_word_ariths)
qed

text \<open>
  Each loop runs to its end when every access is in range, and panics exactly
  when one is not.
\<close>

lemma strLoop_Some:
  assumes "\<forall>i\<in>set is. i < length rs \<and> unat (idx + word_of_nat i) < length m"
  shows "strLoop rs idx is m = Some (fold (\<lambda>i m. m[unat (idx + word_of_nat i) := rs ! i]) is m)"
  using assms by (induction "is" arbitrary: m) (simp_all add: slice_get_def slice_set_def)

lemma strLoop_None_iff:
  "strLoop rs idx is m = None \<longleftrightarrow>
     (\<exists>i\<in>set is. \<not> (i < length rs \<and> unat (idx + word_of_nat i) < length m))"
  by (induction "is" arbitrary: m) (auto simp add: slice_get_def slice_set_def)

lemma ldrLoop_Some:
  assumes "\<forall>i\<in>set is. i < length rs \<and> unat (idx + word_of_nat i) < length m"
  shows "ldrLoop m idx is rs = Some (fold (\<lambda>i rs. rs[i := m ! unat (idx + word_of_nat i)]) is rs)"
  using assms by (induction "is" arbitrary: rs) (simp_all add: slice_get_def slice_set_def)

lemma ldrLoop_None_iff:
  "ldrLoop m idx is rs = None \<longleftrightarrow>
     (\<exists>i\<in>set is. \<not> (i < length rs \<and> unat (idx + word_of_nat i) < length m))"
  by (induction "is" arbitrary: rs) (auto simp add: slice_get_def slice_set_def)

lemma store_fold_length:
  "length (fold (\<lambda>i m. m[f i := g i]) is m) = length m"
  by (induction "is" arbitrary: m) simp_all

lemma store_fold_nth:
  fixes idx :: u16
  assumes "unat idx + k \<le> length m" and "length m \<le> 65536"
  shows "fold (\<lambda>i m. m[unat (idx + word_of_nat i) := rs ! i]) [0..<k] m ! a =
           (if unat idx \<le> a \<and> a < unat idx + k then rs ! (a - unat idx) else m ! a)"
  using assms
proof (induction k arbitrary: a)
  case 0
  then show ?case by auto
next
  case (Suc k)
  have "unat idx + k < 65536" using Suc.prems by simp
  then have u: "unat (idx + word_of_nat k) = unat idx + k" by (rule unat_idx_add)
  have "unat idx + k < length m" using Suc.prems by simp
  then show ?case using Suc u
    by (auto simp add: nth_list_update store_fold_length)
qed

lemma load_fold_length:
  "length (fold (\<lambda>i rs. rs[i := g i]) is rs) = length rs"
  by (induction "is" arbitrary: rs) simp_all

lemma load_fold_nth:
  assumes "k \<le> length rs"
  shows "fold (\<lambda>i rs. rs[i := g i]) [0..<k] rs ! j = (if j < k then g j else rs ! j)"
  using assms by (induction k arbitrary: j) (auto simp add: nth_list_update load_fold_length)

lemma decode_str: "opcode AND 0xF0FF = 0xF055 \<Longrightarrow> decode opcode = strInstruction"
  using and_submask [of opcode "0xF0FF" "0xF055" "0xF000"]
    and_submask [of opcode "0xF0FF" "0xF055" "0x00FF"]
  by (simp add: decode_def)

lemma decode_ldr: "opcode AND 0xF0FF = 0xF065 \<Longrightarrow> decode opcode = ldrInstruction"
  using and_submask [of opcode "0xF0FF" "0xF065" "0xF000"]
    and_submask [of opcode "0xF0FF" "0xF065" "0x00FF"]
  by (simp add: decode_def)

lemma str_Execute_Some:
  assumes N: "unat (drop_bit 8 (opcode AND 0x0F00)) = N"
    and inr: "\<forall>i\<in>set [0..<Suc N]. i < length (registers vm)
                \<and> unat (index vm + word_of_nat i) < length (memory vm)"
  shows "str_Execute vm opcode =
     Some (None, vm\<lparr>memory := fold (\<lambda>i m. m[unat (index vm + word_of_nat i) := registers vm ! i])
                                   [0..<Suc N] (memory vm),
                      index := index vm + (drop_bit 8 (opcode AND 0x0F00) + 1),
                      pc := pc vm + 2\<rparr>)"
  unfolding str_Execute_def Let_def N InstructionSize_def
  by (simp only: strLoop_Some [OF inr] bind.simps)

lemma ldr_Execute_Some:
  assumes N: "unat (drop_bit 8 (opcode AND 0x0F00)) = N"
    and inr: "\<forall>i\<in>set [0..<Suc N]. i < length (registers vm)
                \<and> unat (index vm + word_of_nat i) < length (memory vm)"
  shows "ldr_Execute vm opcode =
     Some (None, vm\<lparr>registers := fold (\<lambda>i rs. rs[i := memory vm ! unat (index vm + word_of_nat i)])
                                   [0..<Suc N] (registers vm),
                      index := index vm + (drop_bit 8 (opcode AND 0x0F00) + 1),
                      pc := pc vm + 2\<rparr>)"
  unfolding ldr_Execute_def Let_def N InstructionSize_def
  by (simp only: ldrLoop_Some [OF inr] bind.simps)

lemma index_advance:
  assumes N: "unat (drop_bit 8 (opcode AND 0x0F00 :: u16)) = N"
    and range: "unat (I :: u16) + N < 4096"
  shows "unat (I + (drop_bit 8 (opcode AND 0x0F00) + 1)) = unat I + N + 1"
proof -
  have "N < 16" using N nibX_lt [of opcode] by simp
  then have "unat (drop_bit 8 (opcode AND 0x0F00) + 1) = N + 1"
    using N by (simp add: unat_word_ariths)
  then show ?thesis using range by (simp add: unat_word_ariths)
qed

text \<open>
  C9. For every \<open>N \<le> 15\<close> (the \<open>X\<close> field of the opcodes) and every index \<open>I\<close> with
  \<open>I + N\<close> inside the memory: store-registers \<open>FN55\<close> returns no error, writes
  \<open>V0..VN\<close> to \<open>memory[I..I+N]\<close> and advances \<open>I\<close> by \<open>N + 1\<close>; after the index is set
  back to \<open>I\<close> and the registers are replaced by any others \<open>rs'\<close>, load-registers
  \<open>FN65\<close> returns no error, leaves the stored values in \<open>V0..VN\<close> and advances \<open>I\<close>
  by \<open>N + 1\<close> as well.
\<close>

theorem C9_store_load_round_trip:
  assumes lenm: "length (memory vm) = 4096"
    and lenr: "length (registers vm) = 16"
    and lenr': "length rs' = 16"
    and st: "os AND 0xF0FF = 0xF055"
    and ld: "ol AND 0xF0FF = 0xF065"
    and N: "unat (drop_bit 8 (os AND 0x0F00)) = N"
    and N': "unat (drop_bit 8 (ol AND 0x0F00)) = N"
    and range: "unat (index vm) + N < 4096"
  shows "\<exists>vm1 vm2.
           executeOpcode rnd vm os = Some (None, vm1)
         \<and> unat (index vm1) = unat (index vm) + N + 1
         \<and> (\<forall>i\<le>N. memory vm1 ! (unat (index vm) + i) = registers vm ! i)
         \<and> executeOpcode rnd' (vm1\<lparr>index := index vm, registers := rs'\<rparr>) ol = Some (None, vm2)
         \<and> unat (index vm2) = unat (index vm) + N + 1
         \<and> (\<forall>i\<le>N. registers vm2 ! i = registers vm ! i)"
proof -
  let ?I = "index vm"
  let ?m1 = "fold (\<lambda>i m. m[unat (?I + word_of_nat i) := registers vm ! i]) [0..<Suc N] (memory vm)"
  let ?vm1 = "vm\<lparr>memory := ?m1, index := ?I + (drop_bit 8 (os AND 0x0F00) + 1), pc := pc vm + 2\<rparr>"
  let ?vm1' = "?vm1\<lparr>index := ?I, registers := rs'\<rparr>"
  let ?r2 = "fold (\<lambda>i rs. rs[i := ?m1 ! unat (?I + word_of_nat i)]) [0..<Suc N] rs'"
  let ?vm2 = "?vm1'\<lparr>registers := ?r2, index := ?I + (drop_bit 8 (ol AND 0x0F00) + 1),
                     pc := pc ?vm1' + 2\<rparr>"
  have N16: "N < 16" using N nibX_lt [of os] by simp
  have addr: "unat (?I + word_of_nat i) = unat ?I + i" if "i \<le> N" for i
  proof -
    have "unat ?I + i < 65536" using that range by simp
    then show ?thesis by (rule unat_idx_add)
  qed
  have inr: "\<forall>i\<in>set [0..<Suc N]. i < length (registers vm)
               \<and> unat (?I + word_of_nat i) < length (memory vm)"
    using N16 lenr lenm range addr by auto
  have s1: "executeOpcode rnd vm os = Some (None, ?vm1)"
    using str_Execute_Some [OF N inr] by (simp add: executeOpcode_def decode_str [OF st])
  have i1: "unat (index ?vm1) = unat ?I + N + 1"
    using index_advance [OF N range] by simp
  have m1len: "length ?m1 = 4096" using lenm by (simp only: store_fold_length)
  have m1: "?m1 ! (unat ?I + i) = registers vm ! i" if "i \<le> N" for i
  proof -
    have "unat ?I + Suc N \<le> length (memory vm)" "length (memory vm) \<le> 65536"
      using range lenm by simp_all
    from store_fold_nth [OF this, of "registers vm" "unat ?I + i"] that
    show ?thesis by simp
  qed
  have inr2: "\<forall>i\<in>set [0..<Suc N]. i < length (registers ?vm1')
               \<and> unat (index ?vm1' + word_of_nat i) < length (memory ?vm1')"
    using N16 lenr' m1len range addr by auto
  have s2: "executeOpcode rnd' ?vm1' ol = Some (None, ?vm2)"
    using ldr_Execute_Some [OF N' inr2] by (simp add: executeOpcode_def decode_ldr [OF ld])
  have i2: "unat (index ?vm2) = unat ?I + N + 1"
    using index_advance [OF N' range] by simp
  have r2: "?r2 ! i = registers vm ! i" if "i \<le> N" for i
  proof -
    have "Suc N \<le> length rs'" using N16 lenr' by simp
    from load_fold_nth [OF this, of "\<lambda>i. ?m1 ! unat (?I + word_of_nat i)" i] that
    have "?r2 ! i = ?m1 ! unat (?I + word_of_nat i)" by simp
    then show ?thesis using that addr m1 by simp
  qed
  have m1': "\<forall>i\<le>N. memory ?vm1 ! (unat ?I + i) = registers vm ! i" using m1 by simp
  have r2': "\<forall>i\<le>N. registers ?vm2 ! i = registers vm ! i" using r2 by simp
  from s1 i1 m1' s2 i2 r2' show ?thesis by blast
qed

theorem C9_witness:
  "\<exists>vm1 vm2.
      executeOpcode 0 (vm_mem [1, 2, 3, 4, 5, 6, 7, 8, 9, 10, 11, 12, 13, 14, 15, 16] 0x300 []) 0xF355
        = Some (None, vm1)
    \<and> index vm1 = 0x304
    \<and> executeOpcode 0 (vm1\<lparr>index := 0x300, registers := replicate 16 0\<rparr>) 0xF365 = Some (None, vm2)
    \<and> index vm2 = 0x304
    \<and> registers vm2 ! 0 = 1 \<and> registers vm2 ! 1 = 2 \<and> registers vm2 ! 2 = 3
    \<and> registers vm2 ! 3 = 4"
proof -
  let ?vm = "vm_mem [1, 2, 3, 4, 5, 6, 7, 8, 9, 10, 11, 12, 13, 14, 15, 16] 0x300 []"
  have lenm: "length (memory ?vm) = 4096" by (simp add: vm_mem_def MemorySize_def)
  have lenr: "length (registers ?vm) = 16" by (simp add: vm_mem_def)
  have lenr': "length (replicate 16 (0 :: u8)) = 16" by simp
  have st: "(0xF355 :: u16) AND 0xF0FF = 0xF055" by simp
  have ld: "(0xF365 :: u16) AND 0xF0FF = 0xF065" by simp
  have N: "unat (drop_bit 8 ((0xF355 :: u16) AND 0x0F00)) = 3" by simp
  have N': "unat (drop_bit 8 ((0xF365 :: u16) AND 0x0F00)) = 3" by simp
  have range: "unat (index ?vm) + 3 < 4096" by (simp add: vm_mem_def)
  have i: "index ?vm = 0x300" by (simp add: vm_mem_def)
  have r: "registers ?vm ! 0 = 1 \<and> registers ?vm ! 1 = 2 \<and> registers ?vm ! 2 = 3
      \<and> registers ?vm ! 3 = 4" by (simp add: vm_mem_def)
  from C9_store_load_round_trip [OF lenm lenr lenr' st ld N N' range, of 0 0]
  obtain vm1 vm2 where
    a: "executeOpcode 0 ?vm 0xF355 = Some (None, vm1)"
    and b: "unat (index vm1) = unat (index ?vm) + 3 + 1"
    and c: "executeOpcode 0 (vm1\<lparr>index := index ?vm, registers := replicate 16 0\<rparr>) 0xF365
              = Some (None, vm2)"
    and d: "unat (index vm2) = unat (index ?vm) + 3 + 1"
    and e: "\<forall>i\<le>3. registers vm2 ! i = registers ?vm ! i"
    by blast
  have b': "index vm1 = 0x304" using b i by (simp add: word_unat_eq_iff)
  have d': "index vm2 = 0x304" using d i by (simp add: word_unat_eq_iff)
  have "registers vm2 ! 0 = 1 \<and> registers vm2 ! 1 = 2 \<and> registers vm2 ! 2 = 3
      \<and> registers vm2 ! 3 = 4"
    using e r by simp
  then show ?thesis using a b' c d' i by auto
qed

section \<open>Drawing sprites\<close>

text \<open>
  A screen address is \<open>64 * (y mod 32) + x mod 64\<close>, below 2048; the loops of
  \<open>spriteInstruction\<close> are \<open>toggles\<close> over \<open>spriteCells\<close>; on cells that are pairwise
  different, \<open>toggles\<close> flips each cell once and reports whether one was not zero;
  and the cells of a sprite of at most 32 rows are pairwise different.
\<close>

lemma getScreenAddr_nat:
  "unat (getScreenAddr a b) = 64 * (unat b mod 32) + unat a mod 64"
proof -
  have "unat (a mod 64) = unat a mod 64" "unat (b mod 32) = unat b mod 32"
    by (simp_all add: unat_mod)
  moreover have "64 * (unat b mod 32) + unat a mod 64 < 65536"
  proof -
    have "unat b mod 32 < 32" "unat a mod 64 < 64" by simp_all
    then show ?thesis by linarith
  qed
  ultimately show ?thesis
    by (simp add: getScreenAddr_def ScreenWidth_def ScreenHeight_def Let_def unat_word_ariths)
qed

lemma getScreenAddr_lt: "unat (getScreenAddr a b) < 2048"
proof -
  have "unat b mod 32 < 32" "unat a mod 64 < 64" by simp_all
  then show ?thesis unfolding getScreenAddr_nat by linarith
qed

lemma toggles_length: "length (fst (toggles as st)) = length (fst st)"
  by (induction as st rule: toggles.induct) simp_all

lemma toggles_append: "toggles (as @ bs) st = toggles bs (toggles as st)"
  by (induction as st rule: toggles.induct) simp_all

lemma spriteCols_toggles:
  assumes "length g = 2048"
  shows "spriteCols pixel xL yL y xs (g, c) =
     Some (toggles (map (\<lambda>x. unat (getScreenAddr (word_of_nat x + xL) (y + yL)))
                      (filter (\<lambda>x. pixel AND drop_bit x 0x80 \<noteq> 0) xs)) (g, c))"
  using assms
proof (induction xs arbitrary: g c)
  case Nil
  then show ?case by simp
next
  case (Cons x xs)
  have lt: "unat (getScreenAddr (word_of_nat x + xL) (y + yL)) < length g"
    using getScreenAddr_lt Cons.prems by simp
  show ?case
  proof (cases "pixel AND drop_bit x 0x80 \<noteq> 0")
    case True
    then show ?thesis using lt Cons.prems
      by (simp add: slice_get_def slice_set_def Let_def Cons.IH)
  next
    case False
    then show ?thesis using Cons.prems by (simp add: Cons.IH)
  qed
qed

lemma spriteCells_Cons:
  "spriteCells mem idx xL yL (y # ys) =
     map (\<lambda>x. unat (getScreenAddr (word_of_nat x + xL) (word_of_nat y + yL)))
         (filter (\<lambda>x. mem ! unat (word_of_nat y + idx) AND drop_bit x 0x80 \<noteq> 0) [0..<8])
     @ spriteCells mem idx xL yL ys"
  by (simp add: spriteCells_def filter_map comp_def)

lemma spriteCells_Nil: "spriteCells mem idx xL yL [] = []"
  by (simp add: spriteCells_def)

lemma spriteRows_toggles:
  assumes "length g = 2048" and "\<forall>y\<in>set ys. unat (word_of_nat y + idx) < length mem"
  shows "spriteRows mem idx xL yL ys (g, c) = Some (toggles (spriteCells mem idx xL yL ys) (g, c))"
  using assms
proof (induction ys arbitrary: g c)
  case Nil
  then show ?case by (simp add: spriteCells_Nil)
next
  case (Cons y ys)
  let ?row = "map (\<lambda>x. unat (getScreenAddr (word_of_nat x + xL) (word_of_nat y + yL)))
         (filter (\<lambda>x. mem ! unat (word_of_nat y + idx) AND drop_bit x 0x80 \<noteq> 0) [0..<8])"
  obtain g' c' where st: "toggles ?row (g, c) = (g', c')" by (cases "toggles ?row (g, c)")
  have "length g' = 2048" using toggles_length [of ?row "(g, c)"] st Cons.prems(1) by simp
  then have "spriteRows mem idx xL yL ys (g', c') = Some (toggles (spriteCells mem idx xL yL ys) (g', c'))"
    using Cons.IH Cons.prems(2) by simp
  moreover have "unat (word_of_nat y + idx) < length mem" using Cons.prems(2) by simp
  ultimately show ?case
    using spriteCols_toggles [OF Cons.prems(1), of "mem ! unat (word_of_nat y + idx)" xL yL "word_of_nat y" "[0..<8]" c] st
    by (simp add: slice_get_def spriteCells_Cons toggles_append del: upt.simps)
qed

lemma spriteRows_None_iff:
  assumes "length g = 2048"
  shows "spriteRows mem idx xL yL ys (g, c) = None \<longleftrightarrow>
           (\<exists>y\<in>set ys. \<not> unat (word_of_nat y + idx) < length mem)"
  using assms
proof (induction ys arbitrary: g c)
  case Nil
  then show ?case by simp
next
  case (Cons y ys)
  let ?row = "map (\<lambda>x. unat (getScreenAddr (word_of_nat x + xL) (word_of_nat y + yL)))
         (filter (\<lambda>x. mem ! unat (word_of_nat y + idx) AND drop_bit x 0x80 \<noteq> 0) [0..<8])"
  obtain g' c' where st: "toggles ?row (g, c) = (g', c')" by (cases "toggles ?row (g, c)")
  have "length g' = 2048" using toggles_length [of ?row "(g, c)"] st Cons.prems(1) by simp
  then have ih: "spriteRows mem idx xL yL ys (g', c') = None \<longleftrightarrow>
           (\<exists>y\<in>set ys. \<not> unat (word_of_nat y + idx) < length mem)"
    by (rule Cons.IH)
  show ?case
    using spriteCols_toggles [OF Cons.prems(1), of "mem ! unat (word_of_nat y + idx)" xL yL "word_of_nat y" "[0..<8]" c] st ih
    by (auto simp add: slice_get_def Let_def simp del: upt.simps)
qed

lemma xor_one_twice: "((v :: u8) XOR 1) XOR 1 = v"
  by (simp add: xor.assoc)

lemma xor_one_nonzero: "((v :: u8) XOR 1 \<noteq> 0) = (v \<noteq> 1)"
proof -
  have "v XOR 1 = 0 \<Longrightarrow> v = 1"
  proof -
    assume "v XOR 1 = 0"
    then have "(v XOR 1) XOR 1 = 0 XOR 1" by simp
    then show "v = 1" by (simp add: xor.assoc)
  qed
  then show ?thesis by auto
qed

lemma toggles_distinct:
  assumes "distinct as" and "\<forall>a\<in>set as. a < length g"
  shows "fst (toggles as (g, c)) ! k = (if k \<in> set as then g ! k XOR 1 else g ! k)
       \<and> snd (toggles as (g, c)) = (if \<exists>a\<in>set as. g ! a \<noteq> 0 then 1 else c)"
  using assms
proof (induction as arbitrary: g c)
  case Nil
  then show ?case by simp
next
  case (Cons a as)
  let ?g = "g[a := g ! a XOR 1]"
  let ?c = "if g ! a \<noteq> 0 then 1 else c"
  have notin: "a \<notin> set as" and d: "distinct as" using Cons.prems(1) by simp_all
  have a: "a < length g" using Cons.prems(2) by simp
  have same: "?g ! b = g ! b" if "b \<in> set as" for b
  proof -
    have "a \<noteq> b" using that notin by auto
    then show ?thesis by simp
  qed
  have "\<forall>b\<in>set as. b < length ?g" using Cons.prems(2) by simp
  from Cons.IH [OF d this, of ?c]
  have ih: "fst (toggles as (?g, ?c)) ! k = (if k \<in> set as then ?g ! k XOR 1 else ?g ! k)"
    and ihc: "snd (toggles as (?g, ?c)) = (if \<exists>b\<in>set as. ?g ! b \<noteq> 0 then 1 else ?c)"
    by simp_all
  have 1: "fst (toggles (a # as) (g, c)) ! k = (if k \<in> set (a # as) then g ! k XOR 1 else g ! k)"
    using ih same notin a by (auto simp add: nth_list_update)
  have "(\<exists>b\<in>set as. ?g ! b \<noteq> 0) = (\<exists>b\<in>set as. g ! b \<noteq> 0)" using same by auto
  then have 2: "snd (toggles (a # as) (g, c)) = (if \<exists>b\<in>set (a # as). g ! b \<noteq> 0 then 1 else c)"
    using ihc by auto
  from 1 2 show ?case by blast
qed

lemma toggles_twice:
  assumes "distinct as" and "\<forall>a\<in>set as. a < length g"
  shows "fst (toggles as (fst (toggles as (g, c)), c')) = g"
    and "snd (toggles as (fst (toggles as (g, c)), c')) =
           (if \<exists>a\<in>set as. g ! a \<noteq> 1 then 1 else c')"
proof -
  let ?g1 = "fst (toggles as (g, c))"
  have len1: "length ?g1 = length g" using toggles_length [of as "(g, c)"] by simp
  have g1: "?g1 ! k = (if k \<in> set as then g ! k XOR 1 else g ! k)" for k
    using toggles_distinct [OF assms, of c k] by simp
  have r: "\<forall>a\<in>set as. a < length ?g1" using assms(2) len1 by simp
  have g2: "fst (toggles as (?g1, c')) ! k = (if k \<in> set as then ?g1 ! k XOR 1 else ?g1 ! k)" for k
    using toggles_distinct [OF assms(1) r, of c' k] by simp
  have c2: "snd (toggles as (?g1, c')) = (if \<exists>a\<in>set as. ?g1 ! a \<noteq> 0 then 1 else c')"
    using toggles_distinct [OF assms(1) r, of c' 0] by simp
  have "length (fst (toggles as (?g1, c'))) = length g"
    using toggles_length [of as "(?g1, c')"] len1 by simp
  moreover have "fst (toggles as (?g1, c')) ! k = g ! k" for k
    using g2 [of k] g1 [of k] by (simp add: xor_one_twice)
  ultimately show "fst (toggles as (?g1, c')) = g" by (simp add: nth_equalityI)
  have "(\<exists>a\<in>set as. ?g1 ! a \<noteq> 0) = (\<exists>a\<in>set as. g ! a \<noteq> 1)"
    using g1 by (simp add: xor_one_nonzero)
  then show "snd (toggles as (?g1, c')) = (if \<exists>a\<in>set as. g ! a \<noteq> 1 then 1 else c')"
    using c2 by simp
qed

lemma cell_nat:
  assumes "x < 8" and "y < 32" and "unat xL < 256" and "unat yL < 256"
  shows "unat (getScreenAddr (word_of_nat x + xL) (word_of_nat y + yL)) =
           64 * ((y + unat yL) mod 32) + (x + unat xL) mod 64"
proof -
  have "unat xL + x < 65536" "unat yL + y < 65536" using assms by simp_all
  then have "unat (xL + word_of_nat x) = unat xL + x" "unat (yL + word_of_nat y) = unat yL + y"
    by (simp_all add: unat_idx_add)
  then show ?thesis by (simp add: getScreenAddr_nat add.commute)
qed

lemma mod_shift_inj:
  fixes u v K n :: nat
  assumes eq: "(u + K) mod n = (v + K) mod n" and u: "u < n" and v: "v < n"
  shows "u = v"
proof (rule ccontr)
  assume ne: "u \<noteq> v"
  have le: "n dvd (b + K) - (a + K)" if "(a + K) mod n = (b + K) mod n" and "a < b" for a b
  proof -
    have "a + K \<le> b + K" using that(2) by simp
    from mod_eq_dvd_iff_nat [OF this, of n] that(1) show ?thesis by simp
  qed
  consider "u < v" | "v < u" using ne by linarith
  then show False
  proof cases
    case 1
    then have "n dvd v - u" using le [OF eq] by simp
    moreover have "0 < v - u" "v - u < n" using 1 v by simp_all
    ultimately show False using nat_dvd_not_less by blast
  next
    case 2
    then have "n dvd u - v" using le [OF eq [symmetric]] by simp
    moreover have "0 < u - v" "u - v < n" using 2 u by simp_all
    ultimately show False using nat_dvd_not_less by blast
  qed
qed

lemma cell_inj:
  fixes x y x' y' X Y :: nat
  assumes "x < 8" "x' < 8" "y < 32" "y' < 32"
    and eq: "64 * ((y + Y) mod 32) + (x + X) mod 64 = 64 * ((y' + Y) mod 32) + (x' + X) mod 64"
  shows "y = y' \<and> x = x'"
proof -
  let ?a = "(y + Y) mod 32" and ?b = "(x + X) mod 64"
  let ?a' = "(y' + Y) mod 32" and ?b' = "(x' + X) mod 64"
  have b: "?b < 64" "?b' < 64" by simp_all
  have "(64 * ?a + ?b) div 64 = (64 * ?a' + ?b') div 64" using eq by simp
  then have a: "?a = ?a'" using b by simp
  then have "?b = ?b'" using eq by simp
  then have "x = x'" using assms(1,2) by (intro mod_shift_inj [of x X 64 x']) simp_all
  moreover have "y = y'" using a assms(3,4) by (intro mod_shift_inj [of y Y 32 y']) simp_all
  ultimately show ?thesis by simp
qed

lemma distinct_spriteCells:
  assumes "unat xL < 256" and "unat yL < 256" and "h \<le> 32"
  shows "distinct (spriteCells mem idx xL yL [0..<h])"
proof -
  let ?f = "\<lambda>(y, x). unat (getScreenAddr (word_of_nat x + xL) (word_of_nat y + yL))"
  have "inj_on ?f (set (List.product [0..<h] [0..<8]))"
  proof (rule inj_onI)
    fix p q
    assume p: "p \<in> set (List.product [0..<h] [0..<8])"
      and q: "q \<in> set (List.product [0..<h] [0..<8])" and eq: "?f p = ?f q"
    obtain y x where pp: "p = (y, x)" by (cases p)
    obtain y' x' where qq: "q = (y', x')" by (cases q)
    have b: "x < 8" "x' < 8" "y < 32" "y' < 32" using p q pp qq assms(3) by auto
    have "64 * ((y + unat yL) mod 32) + (x + unat xL) mod 64 =
          64 * ((y' + unat yL) mod 32) + (x' + unat xL) mod 64"
      using eq pp qq cell_nat [OF b(1) b(3) assms(1,2)] cell_nat [OF b(2) b(4) assms(1,2)]
      by simp
    from cell_inj [OF b this] show "p = q" using pp qq by simp
  qed
  moreover have "distinct (List.product [0..<h] [0..<8])" by (simp add: distinct_product)
  ultimately have "distinct (map ?f (List.product [0..<h] [0..<8]))"
    by (simp add: distinct_map)
  then show ?thesis unfolding spriteCells_def by (rule distinct_map_filter)
qed

lemma unat_ucast_u8: "unat (ucast (r :: u8) :: u16) < 256"
proof -
  have "unat (ucast r :: u16) = take_bit 16 (unat r)" by (simp add: unsigned_ucast_eq)
  moreover have "unat r < 256" using unsigned_less [of r, where 'a = nat] by simp
  ultimately show ?thesis by (simp add: take_bit_nat_eq_self)
qed

lemma decode_sprite: "opcode AND 0xF000 = 0xD000 \<Longrightarrow> decode opcode = spriteInstruction"
  by (simp add: decode_def)

lemma sprite_Execute_Some:
  assumes lenr: "length (registers vm) = 16"
    and leng: "length (gfx vm) = 2048"
    and X: "unat (drop_bit 8 (opcode AND 0x0F00)) = X"
    and Y: "unat (drop_bit 4 (opcode AND 0x00F0)) = Y"
    and H: "unat (opcode AND 0x000F) = H"
    and inr: "\<forall>y\<in>set [0..<H]. unat (word_of_nat y + index vm) < length (memory vm)"
    and cells: "cells = spriteCells (memory vm) (index vm)
                  (ucast (registers vm ! X)) (ucast (registers vm ! Y)) [0..<H]"
  shows "sprite_Execute vm opcode =
     Some (None, vm\<lparr>gfx := fst (toggles cells (gfx vm, 0)),
                      registers := (registers vm)[15 := snd (toggles cells (gfx vm, 0))],
                      drawFlag := True, pc := pc vm + 2\<rparr>)"
proof -
  have "X < 16" "Y < 16" using X Y nibX_lt [of opcode] nibY_lt [of opcode] by simp_all
  then have g: "slice_get (registers vm) X = Some (registers vm ! X)"
      "slice_get (registers vm) Y = Some (registers vm ! Y)"
    using lenr by (simp_all add: slice_get_def)
  have s: "slice_set (registers vm) 0x0F c = Some ((registers vm)[15 := c])" for c
    using lenr by (simp add: slice_set_def)
  show ?thesis
    unfolding sprite_Execute_def Let_def X Y H InstructionSize_def
    by (simp only: g s bind.simps spriteRows_toggles [OF leng inr] cells split_beta)
qed

text \<open>
  C8, as stated, fails: with the only set pixel of a one-row sprite (\<open>0x80\<close>) on a
  cell that is lit, the first draw clears the cell and sets \<open>VF = 1\<close>, and the second
  draw restores the cell and sets \<open>VF = 0\<close>, although the sprite has a set pixel.
\<close>

theorem C8_counterexample:
  "memory (vm_gfx (replicate 16 0) 0x300 [0x80] [0]) ! 0x300 = 0x80
   \<and> executeOpcode 0 (vm_gfx (replicate 16 0) 0x300 [0x80] [0]) 0xD011 =
       Some (None, (vm_gfx (replicate 16 0) 0x300 [0x80] [])
          \<lparr>registers := (replicate 16 0)[15 := 1], drawFlag := True, pc := 0x202\<rparr>)
   \<and> executeOpcode 0 ((vm_gfx (replicate 16 0) 0x300 [0x80] [])
          \<lparr>registers := (replicate 16 0)[15 := 1], drawFlag := True, pc := 0x202\<rparr>) 0xD011 =
       Some (None, (vm_gfx (replicate 16 0) 0x300 [0x80] [0])
          \<lparr>registers := (replicate 16 0)[15 := 0], drawFlag := True, pc := 0x204\<rparr>)"
  by code_simp

text \<open>
  C8, amended. For a draw-sprite \<open>DXYN\<close> whose coordinate registers are not \<open>VF\<close>
  and whose rows \<open>memory[I..I+N)\<close> are inside the memory, on any frame buffer:
  drawing twice returns no error and restores the frame buffer; the first draw
  flips exactly the cells under the set pixels of the sprite; \<open>VF\<close> after the first
  draw is 1 exactly when one of these cells was not zero; \<open>VF\<close> after the second
  draw is 1 exactly when one of these cells was not 1 before the first draw.
  So when the sprite first lands on cells that are all off, \<open>VF\<close> is 0 after the
  first draw, and after the second it is 1 exactly when the sprite has a set
  pixel.
\<close>

theorem C8_double_draw_restores:
  assumes lenr: "length (registers vm) = 16"
    and leng: "length (gfx vm) = 2048"
    and op: "opcode AND 0xF000 = 0xD000"
    and X: "unat (drop_bit 8 (opcode AND 0x0F00)) = X" and XF: "X \<noteq> 15"
    and Y: "unat (drop_bit 4 (opcode AND 0x00F0)) = Y" and YF: "Y \<noteq> 15"
    and H: "unat (opcode AND 0x000F) = H"
    and range: "unat (index vm) + H \<le> length (memory vm)"
    and lenm: "length (memory vm) \<le> 65536"
    and cells: "cells = spriteCells (memory vm) (index vm)
                  (ucast (registers vm ! X)) (ucast (registers vm ! Y)) [0..<H]"
  shows "\<exists>vm1 vm2.
           executeOpcode rnd vm opcode = Some (None, vm1)
         \<and> executeOpcode rnd' vm1 opcode = Some (None, vm2)
         \<and> gfx vm2 = gfx vm
         \<and> (\<forall>k. gfx vm1 ! k = (if k \<in> set cells then gfx vm ! k XOR 1 else gfx vm ! k))
         \<and> registers vm1 ! 15 = (if \<exists>a\<in>set cells. gfx vm ! a \<noteq> 0 then 1 else 0)
         \<and> registers vm2 ! 15 = (if \<exists>a\<in>set cells. gfx vm ! a \<noteq> 1 then 1 else 0)
         \<and> ((\<forall>a\<in>set cells. gfx vm ! a = 0) \<longrightarrow>
               registers vm1 ! 15 = 0 \<and> registers vm2 ! 15 = (if cells \<noteq> [] then 1 else 0))"
proof -
  let ?g1 = "fst (toggles cells (gfx vm, 0))" and ?c1 = "snd (toggles cells (gfx vm, 0))"
  let ?vm1 = "vm\<lparr>gfx := ?g1, registers := (registers vm)[15 := ?c1],
                  drawFlag := True, pc := pc vm + 2\<rparr>"
  let ?g2 = "fst (toggles cells (?g1, 0))" and ?c2 = "snd (toggles cells (?g1, 0))"
  let ?vm2 = "?vm1\<lparr>gfx := ?g2, registers := (registers ?vm1)[15 := ?c2],
                  drawFlag := True, pc := pc ?vm1 + 2\<rparr>"
  have H16: "H < 16" using H nibN_lt [of opcode] by simp
  have inr: "\<forall>y\<in>set [0..<H]. unat (word_of_nat y + index vm) < length (memory vm)"
  proof
    fix y assume "y \<in> set [0..<H]"
    then have y: "y < H" by simp
    then have "unat (index vm) + y < 65536" using range lenm by simp
    then have "unat (index vm + word_of_nat y) = unat (index vm) + y" by (rule unat_idx_add)
    then show "unat (word_of_nat y + index vm) < length (memory vm)"
      using y range by (simp add: add.commute)
  qed
  have s1: "executeOpcode rnd vm opcode = Some (None, ?vm1)"
    using sprite_Execute_Some [OF lenr leng X Y H inr cells]
    by (simp add: executeOpcode_def decode_sprite [OF op])
  have g1len: "length ?g1 = 2048" using toggles_length [of cells "(gfx vm, 0)"] leng by simp
  have X16: "X < 16" "Y < 16" using X Y nibX_lt [of opcode] nibY_lt [of opcode] by simp_all
  have regs: "registers ?vm1 ! X = registers vm ! X" "registers ?vm1 ! Y = registers vm ! Y"
    using XF YF by simp_all
  have cells1: "cells = spriteCells (memory ?vm1) (index ?vm1)
                  (ucast (registers ?vm1 ! X)) (ucast (registers ?vm1 ! Y)) [0..<H]"
    using cells XF YF by simp
  have lenr1: "length (registers ?vm1) = 16" using lenr by simp
  have leng1: "length (gfx ?vm1) = 2048" using g1len by simp
  have inr1: "\<forall>y\<in>set [0..<H]. unat (word_of_nat y + index ?vm1) < length (memory ?vm1)"
    using inr by simp
  have "sprite_Execute ?vm1 opcode = Some (None, ?vm1\<lparr>gfx := fst (toggles cells (gfx ?vm1, 0)),
                      registers := (registers ?vm1)[15 := snd (toggles cells (gfx ?vm1, 0))],
                      drawFlag := True, pc := pc ?vm1 + 2\<rparr>)"
    by (rule sprite_Execute_Some [OF lenr1 leng1 X Y H inr1 cells1])
  then have s2: "executeOpcode rnd' ?vm1 opcode = Some (None, ?vm2)"
    by (simp add: executeOpcode_def decode_sprite [OF op])
  have d: "distinct cells"
  proof -
    have "unat (ucast (registers vm ! X) :: u16) < 256" "unat (ucast (registers vm ! Y) :: u16) < 256"
      by (rule unat_ucast_u8)+
    moreover have "H \<le> 32" using H16 by simp
    ultimately show ?thesis unfolding cells by (rule distinct_spriteCells)
  qed
  have b: "\<forall>a\<in>set cells. a < length (gfx vm)"
    unfolding cells spriteCells_def using leng getScreenAddr_lt by auto
  have g1: "\<forall>k. gfx ?vm1 ! k = (if k \<in> set cells then gfx vm ! k XOR 1 else gfx vm ! k)"
    using toggles_distinct [OF d b, of 0] by simp
  have c1: "?c1 = (if \<exists>a\<in>set cells. gfx vm ! a \<noteq> 0 then 1 else 0)"
    using toggles_distinct [OF d b, of 0 0] by simp
  have g2: "gfx ?vm2 = gfx vm" using toggles_twice(1) [OF d b, of 0 0] by simp
  have c2: "?c2 = (if \<exists>a\<in>set cells. gfx vm ! a \<noteq> 1 then 1 else 0)"
    using toggles_twice(2) [OF d b, of 0 0] by simp
  have r1: "registers ?vm1 ! 15 = ?c1" using lenr by simp
  have r2: "registers ?vm2 ! 15 = ?c2" using lenr by simp
  have clear: "(\<forall>a\<in>set cells. gfx vm ! a = 0) \<longrightarrow>
               registers ?vm1 ! 15 = 0 \<and> registers ?vm2 ! 15 = (if cells \<noteq> [] then 1 else 0)"
  proof
    assume z: "\<forall>a\<in>set cells. gfx vm ! a = 0"
    then have "registers ?vm1 ! 15 = 0" using r1 c1 by simp
    moreover have "(\<exists>a\<in>set cells. gfx vm ! a \<noteq> 1) = (cells \<noteq> [])"
    proof (cases cells)
      case Nil
      then show ?thesis by simp
    next
      case (Cons a as)
      then have "gfx vm ! a \<noteq> 1" using z by simp
      then show ?thesis using Cons by auto
    qed
    ultimately show "registers ?vm1 ! 15 = 0 \<and> registers ?vm2 ! 15 = (if cells \<noteq> [] then 1 else 0)"
      using r2 c2 by simp
  qed
  from s1 s2 g2 g1 r1 c1 r2 c2 clear show ?thesis by (intro exI [of _ ?vm1] exI [of _ ?vm2]) simp
qed

theorem C8_witness:
  "\<exists>vm1 vm2.
      executeOpcode 0 (vm_gfx [62, 31, 0, 0, 0, 0, 0, 0, 0, 0, 0, 0, 0, 0, 0, 0] 0x300 [0xF0, 0x90] [2046])
         0xD012 = Some (None, vm1)
    \<and> executeOpcode 0 vm1 0xD012 = Some (None, vm2)
    \<and> gfx vm2 = gfx (vm_gfx [62, 31, 0, 0, 0, 0, 0, 0, 0, 0, 0, 0, 0, 0, 0, 0] 0x300 [0xF0, 0x90] [2046])
    \<and> registers vm1 ! 15 = 1 \<and> registers vm2 ! 15 = 1"
proof -
  let ?vm = "vm_gfx [62, 31, 0, 0, 0, 0, 0, 0, 0, 0, 0, 0, 0, 0, 0, 0] 0x300 [0xF0, 0x90] [2046]"
  let ?cells = "spriteCells (memory ?vm) (index ?vm)
                  (ucast (registers ?vm ! 0)) (ucast (registers ?vm ! 1)) [0..<2]"
  have lenr: "length (registers ?vm) = 16" by (simp add: vm_gfx_def vm_mem_def)
  have leng: "length (gfx ?vm) = 2048" by code_simp
  have op: "(0xD012 :: u16) AND 0xF000 = 0xD000" by simp
  have X: "unat (drop_bit 8 ((0xD012 :: u16) AND 0x0F00)) = 0" by simp
  have Y: "unat (drop_bit 4 ((0xD012 :: u16) AND 0x00F0)) = 1" by simp
  have H: "unat ((0xD012 :: u16) AND 0x000F) = 2" by simp
  have range: "unat (index ?vm) + 2 \<le> length (memory ?vm)"
    by (simp add: vm_gfx_def vm_mem_def MemorySize_def)
  have lenm: "length (memory ?vm) \<le> 65536" by (simp add: vm_gfx_def vm_mem_def MemorySize_def)
  have e1: "(\<exists>a\<in>set ?cells. gfx ?vm ! a \<noteq> 0) = True" by code_simp
  have e2: "(\<exists>a\<in>set ?cells. gfx ?vm ! a \<noteq> 1) = True" by code_simp
  from C8_double_draw_restores [OF lenr leng op X _ Y _ H range lenm refl, of 0 0]
  obtain vm1 vm2 where
    "executeOpcode 0 ?vm 0xD012 = Some (None, vm1)"
    "executeOpcode 0 vm1 0xD012 = Some (None, vm2)"
    "gfx vm2 = gfx ?vm"
    "registers vm1 ! 15 = (if \<exists>a\<in>set ?cells. gfx ?vm ! a \<noteq> 0 then 1 else 0)"
    "registers vm2 ! 15 = (if \<exists>a\<in>set ?cells. gfx ?vm ! a \<noteq> 1 then 1 else 0)"
    by auto
  then show ?thesis unfolding e1 e2 by auto
qed

section \<open>Memory accesses out of range\<close>

text \<open>
  The instructions index \<open>vm.memory\<close> at 16-bit addresses with no check of their
  own, so the only check is that of the slice: an index that is not below the
  length panics.
\<close>

lemma decode_bcd: "opcode AND 0xF0FF = 0xF033 \<Longrightarrow> decode opcode = bcdInstruction"
  using and_submask [of opcode "0xF0FF" "0xF033" "0xF000"]
    and_submask [of opcode "0xF0FF" "0xF033" "0x00FF"]
  by (simp add: decode_def)

lemma bcd_Execute_cases:
  assumes lenr: "length (registers vm) = 16"
  shows "bcd_Execute vm opcode =
     (if unat (index vm) < length (memory vm) \<and> unat (index vm + 1) < length (memory vm)
         \<and> unat (index vm + 2) < length (memory vm)
      then Some (None, vm\<lparr>memory := (memory vm)
         [unat (index vm) := registers vm ! unat (drop_bit 8 (opcode AND 0x0F00)) div 100,
          unat (index vm + 1) := (registers vm ! unat (drop_bit 8 (opcode AND 0x0F00)) div 10) mod 10,
          unat (index vm + 2) := registers vm ! unat (drop_bit 8 (opcode AND 0x0F00)) mod 10],
         pc := pc vm + 2\<rparr>)
      else None)"
proof -
  have "unat (drop_bit 8 (opcode AND 0x0F00)) < 16" by (rule nibX_lt)
  then have g: "slice_get (registers vm) (unat (drop_bit 8 (opcode AND 0x0F00))) =
      Some (registers vm ! unat (drop_bit 8 (opcode AND 0x0F00)))"
    using lenr by (simp add: slice_get_def)
  show ?thesis
    unfolding bcd_Execute_def Let_def g InstructionSize_def
    by (simp add: slice_set_def)
qed

lemma str_Execute_cases:
  "str_Execute vm opcode = None \<or> (\<exists>vm'. str_Execute vm opcode = Some (None, vm'))"
  by (cases "strLoop (registers vm) (index vm) [0..<Suc (unat (drop_bit 8 (opcode AND 0x0F00)))] (memory vm)")
     (simp_all add: str_Execute_def Let_def del: upt.simps)

lemma ldr_Execute_cases:
  "ldr_Execute vm opcode = None \<or> (\<exists>vm'. ldr_Execute vm opcode = Some (None, vm'))"
  by (cases "ldrLoop (memory vm) (index vm) [0..<Suc (unat (drop_bit 8 (opcode AND 0x0F00)))] (registers vm)")
     (simp_all add: ldr_Execute_def Let_def del: upt.simps)

lemma str_Execute_None_iff:
  assumes lenr: "length (registers vm) = 16"
    and N: "unat (drop_bit 8 (opcode AND 0x0F00)) = N"
  shows "str_Execute vm opcode = None \<longleftrightarrow>
           (\<exists>i\<le>N. length (memory vm) \<le> unat (index vm + word_of_nat i))"
proof -
  have N16: "N < 16" using N nibX_lt [of opcode] by simp
  have "str_Execute vm opcode = None \<longleftrightarrow>
          strLoop (registers vm) (index vm) [0..<Suc N] (memory vm) = None"
    unfolding str_Execute_def Let_def N
    by (cases "strLoop (registers vm) (index vm) [0..<Suc N] (memory vm)") simp_all
  also have "\<dots> \<longleftrightarrow> (\<exists>i\<in>set [0..<Suc N]. \<not> (i < length (registers vm)
                \<and> unat (index vm + word_of_nat i) < length (memory vm)))"
    by (rule strLoop_None_iff)
  also have "\<dots> \<longleftrightarrow> (\<exists>i\<le>N. length (memory vm) \<le> unat (index vm + word_of_nat i))"
  proof -
    have s: "set [0..<Suc N] = {i. i \<le> N}" by auto
    have r: "i < length (registers vm)" if "i \<le> N" for i using that N16 lenr by simp
    show ?thesis unfolding s using r by (auto simp add: not_less)
  qed
  finally show ?thesis .
qed

lemma ldr_Execute_None_iff:
  assumes lenr: "length (registers vm) = 16"
    and N: "unat (drop_bit 8 (opcode AND 0x0F00)) = N"
  shows "ldr_Execute vm opcode = None \<longleftrightarrow>
           (\<exists>i\<le>N. length (memory vm) \<le> unat (index vm + word_of_nat i))"
proof -
  have N16: "N < 16" using N nibX_lt [of opcode] by simp
  have "ldr_Execute vm opcode = None \<longleftrightarrow>
          ldrLoop (memory vm) (index vm) [0..<Suc N] (registers vm) = None"
    unfolding ldr_Execute_def Let_def N
    by (cases "ldrLoop (memory vm) (index vm) [0..<Suc N] (registers vm)") simp_all
  also have "\<dots> \<longleftrightarrow> (\<exists>i\<in>set [0..<Suc N]. \<not> (i < length (registers vm)
                \<and> unat (index vm + word_of_nat i) < length (memory vm)))"
    by (rule ldrLoop_None_iff)
  also have "\<dots> \<longleftrightarrow> (\<exists>i\<le>N. length (memory vm) \<le> unat (index vm + word_of_nat i))"
  proof -
    have s: "set [0..<Suc N] = {i. i \<le> N}" by auto
    have r: "i < length (registers vm)" if "i \<le> N" for i using that N16 lenr by simp
    show ?thesis unfolding s using r by (auto simp add: not_less)
  qed
  finally show ?thesis .
qed

lemma fetchOpcode_None_iff:
  "fetchOpcode vm = None \<longleftrightarrow>
     length (memory vm) \<le> unat (pc vm) \<or> length (memory vm) \<le> unat (pc vm + 1)"
  by (auto simp add: fetchOpcode_def slice_get_def)

text \<open>
  C3, as stated, fails: store-BCD \<open>F033\<close> with \<open>I = 0x0FFE\<close> reaches address
  \<open>0x1000\<close>, and the outcome is a panic, not a returned error.
\<close>

theorem C3_counterexample:
  "executeOpcode 0 (vm_mem [234, 0, 0, 0, 0, 0, 0, 0, 0, 0, 0, 0, 0, 0, 0, 0] 0x0FFE []) 0xF033 = None"
  by code_simp

text \<open>
  C3, amended. On a machine with 4096 bytes of memory, store-BCD, store-registers,
  load-registers and the opcode fetch panic exactly when one of the 16-bit
  addresses they access (\<open>I, I+1, I+2\<close>; \<open>I+i\<close> for \<open>i \<le> N\<close>; \<open>PC, PC+1\<close>) is 4096 or
  more, and the three instructions never return an error value.
\<close>

theorem C3_out_of_range_access_panics:
  assumes lenm: "length (memory vm) = 4096"
    and lenr: "length (registers vm) = 16"
    and bcd: "ob AND 0xF0FF = 0xF033"
    and str: "os AND 0xF0FF = 0xF055" and Ns: "unat (drop_bit 8 (os AND 0x0F00)) = Ns"
    and ldr: "ol AND 0xF0FF = 0xF065" and Nl: "unat (drop_bit 8 (ol AND 0x0F00)) = Nl"
  shows "(executeOpcode rnd vm ob = None \<longleftrightarrow>
            4096 \<le> unat (index vm) \<or> 4096 \<le> unat (index vm + 1) \<or> 4096 \<le> unat (index vm + 2))
       \<and> (executeOpcode rnd vm os = None \<longleftrightarrow> (\<exists>i\<le>Ns. 4096 \<le> unat (index vm + word_of_nat i)))
       \<and> (executeOpcode rnd vm ol = None \<longleftrightarrow> (\<exists>i\<le>Nl. 4096 \<le> unat (index vm + word_of_nat i)))
       \<and> (fetchOpcode vm = None \<longleftrightarrow> 4096 \<le> unat (pc vm) \<or> 4096 \<le> unat (pc vm + 1))
       \<and> (\<forall>e vm'. executeOpcode rnd vm ob \<noteq> Some (Some e, vm')
              \<and> executeOpcode rnd vm os \<noteq> Some (Some e, vm')
              \<and> executeOpcode rnd vm ol \<noteq> Some (Some e, vm'))"
proof -
  have eb: "executeOpcode rnd vm ob = bcd_Execute vm ob"
    by (simp add: executeOpcode_def decode_bcd [OF bcd])
  have es: "executeOpcode rnd vm os = str_Execute vm os"
    by (simp add: executeOpcode_def decode_str [OF str])
  have el: "executeOpcode rnd vm ol = ldr_Execute vm ol"
    by (simp add: executeOpcode_def decode_ldr [OF ldr])
  have 1: "executeOpcode rnd vm ob = None \<longleftrightarrow>
            4096 \<le> unat (index vm) \<or> 4096 \<le> unat (index vm + 1) \<or> 4096 \<le> unat (index vm + 2)"
    unfolding eb bcd_Execute_cases [OF lenr] lenm by auto
  have 2: "executeOpcode rnd vm os = None \<longleftrightarrow> (\<exists>i\<le>Ns. 4096 \<le> unat (index vm + word_of_nat i))"
    unfolding es using str_Execute_None_iff [OF lenr Ns] lenm by simp
  have 3: "executeOpcode rnd vm ol = None \<longleftrightarrow> (\<exists>i\<le>Nl. 4096 \<le> unat (index vm + word_of_nat i))"
    unfolding el using ldr_Execute_None_iff [OF lenr Nl] lenm by simp
  have 4: "fetchOpcode vm = None \<longleftrightarrow> 4096 \<le> unat (pc vm) \<or> 4096 \<le> unat (pc vm + 1)"
    using fetchOpcode_None_iff [of vm] lenm by simp
  have 5: "executeOpcode rnd vm ob \<noteq> Some (Some e, vm')" for e vm'
    unfolding eb bcd_Execute_cases [OF lenr] by simp
  have 6: "executeOpcode rnd vm os \<noteq> Some (Some e, vm')" for e vm'
    unfolding es using str_Execute_cases [of vm os] by auto
  have 7: "executeOpcode rnd vm ol \<noteq> Some (Some e, vm')" for e vm'
    unfolding el using ldr_Execute_cases [of vm ol] by auto
  from 1 2 3 4 5 6 7 show ?thesis by blast
qed

theorem C3_witness:
  "executeOpcode 0 (vm_mem [234, 0, 0, 0, 0, 0, 0, 0, 0, 0, 0, 0, 0, 0, 0, 0] 0x0FFE []) 0xF033 = None
   \<and> executeOpcode 0 (vm_mem [234, 0, 0, 0, 0, 0, 0, 0, 0, 0, 0, 0, 0, 0, 0, 0] 0x0FFE []) 0xF055 \<noteq> None
   \<and> executeOpcode 0 (vm_mem [234, 0, 0, 0, 0, 0, 0, 0, 0, 0, 0, 0, 0, 0, 0, 0] 0x0FFE []) 0xF265 = None
   \<and> fetchOpcode (vm_mem [234, 0, 0, 0, 0, 0, 0, 0, 0, 0, 0, 0, 0, 0, 0, 0] 0x0FFE []) \<noteq> None"
proof -
  let ?vm = "vm_mem [234, 0, 0, 0, 0, 0, 0, 0, 0, 0, 0, 0, 0, 0, 0, 0] 0x0FFE []"
  have lenm: "length (memory ?vm) = 4096" by (simp add: vm_mem_def MemorySize_def)
  have lenr: "length (registers ?vm) = 16" by (simp add: vm_mem_def)
  have bcd: "(0xF033 :: u16) AND 0xF0FF = 0xF033" by simp
  have str: "(0xF055 :: u16) AND 0xF0FF = 0xF055" by simp
  have Ns: "unat (drop_bit 8 ((0xF055 :: u16) AND 0x0F00)) = 0" by simp
  have ldr: "(0xF265 :: u16) AND 0xF0FF = 0xF065" by simp
  have Nl: "unat (drop_bit 8 ((0xF265 :: u16) AND 0x0F00)) = 2" by simp
  have i: "index ?vm = 0x0FFE" and p: "pc ?vm = 0x200"
    by (simp_all add: vm_mem_def ProgramStart_def)
  have two: "\<exists>i\<le>2. 4096 \<le> unat ((0x0FFE :: u16) + word_of_nat i)"
    by (rule exI [of _ 2]) simp
  show ?thesis
    using C3_out_of_range_access_panics [OF lenm lenr bcd str Ns ldr Nl, of 0] two
    by (simp add: i p)
qed

end
